theory Spec2Isabelle
  imports Main "HOL-Library.AList"
begin

section \<open>Python values reaching the validator\<close>

text \<open>
  The interpreter converts between \<open>int\<close> and \<open>str\<close> only up to a number of decimal
  digits, \<open>sys.int_info.default_max_str_digits\<close>; beyond it the conversion raises
  \<open>ValueError\<close>. The program never changes the setting.
\<close>

definition max_str_digits :: nat where
  "max_str_digits = 4300"

text \<open>
  Both classes call \<open>validate_response\<close> with the result of \<open>parse_llm_response\<close>, that
  is with what \<open>json.loads\<close> produced, so the input is a dynamically typed JSON value.
  An integer of such a value was converted from its literal by \<open>int\<close>, so it has no
  more digits than the limit allows.
\<close>

typedef json_int = "{i :: int. \<bar>i\<bar> < 10 ^ max_str_digits}"
  by (rule exI [of _ 0]) simp

setup_lifting type_definition_json_int

instantiation json_int :: zero
begin

lift_definition zero_json_int :: json_int is 0
  by simp

instance ..

end

lift_definition int_of_json :: "json_int \<Rightarrow> int" is "\<lambda>i. i" .

text \<open>
  A dict is an association list in insertion order (a Python dict never repeats a key);
  JSON object keys are strings. A Python string is modelled as an Isabelle string with
  one \<open>char\<close> per code point, which covers the code points 0 to 255; JSON numbers with a
  fraction or an exponent (Python floats) are not part of the model.
\<close>

datatype pyval =
    PNone
  | PBool bool
  | PInt json_int
  | PStr string
  | PList "pyval list"
  | PDict "(string \<times> pyval) list"

text \<open>
  The exceptions the validator can meet. Only the message of a \<open>ValueError\<close> is ever
  observed (it is formatted into a warning), so the other kinds carry none.
\<close>

datatype pyexn = AttributeError | TypeError | KeyError | ValueError string

text \<open>The dict returned by \<open>validate_response\<close>.\<close>

record verdict =
  errors :: "string list"
  warnings :: "string list"
  is_valid :: bool

section \<open>Built-ins used by the validator\<close>

text \<open>Truth value testing (\<open>if value\<close>, \<open>not value\<close>).\<close>

fun truthy :: "pyval \<Rightarrow> bool" where
  "truthy PNone = False"
| "truthy (PBool b) = b"
| "truthy (PInt i) = (i \<noteq> 0)"
| "truthy (PStr s) = (s \<noteq> [])"
| "truthy (PList xs) = (xs \<noteq> [])"
| "truthy (PDict kvs) = (kvs \<noteq> [])"

subsection \<open>Printing integers\<close>

definition digit_char :: "nat \<Rightarrow> char" where
  "digit_char n = ''0123456789'' ! (n mod 10)"

fun dec_digits :: "nat \<Rightarrow> string" where
  "dec_digits n = (if n < 10 then [digit_char n] else dec_digits (n div 10) @ [digit_char n])"

declare dec_digits.simps [simp del]

text \<open>
  \<open>str(i)\<close> for an integer of the input. It is within the limit by its type, so the
  conversion cannot raise.
\<close>

definition str_int :: "json_int \<Rightarrow> string" where
  "str_int j =
     (let i = int_of_json j
      in if i < 0 then CHR ''-'' # dec_digits (nat (- i)) else dec_digits (nat i))"

text \<open>
  The text the format specification \<open>,\<close> of \<open>f"{n:,}"\<close> produces: decimal digits in
  groups of three from the right, separated by commas, after the sign.
\<close>

definition three_digits :: "nat \<Rightarrow> string" where
  "three_digits n = [digit_char (n div 100), digit_char (n div 10), digit_char n]"

fun group_digits :: "nat \<Rightarrow> string" where
  "group_digits n =
     (if n < 1000 then dec_digits n
      else group_digits (n div 1000) @ CHR '','' # three_digits (n mod 1000))"

declare group_digits.simps [simp del]

definition comma_grouped :: "int \<Rightarrow> string" where
  "comma_grouped i = (if i < 0 then CHR ''-'' # group_digits (nat (- i)) else group_digits (nat i))"

text \<open>
  The conversion itself, as the f-string runs it on a computed number: an int with more
  digits than the limit raises \<open>ValueError\<close> with a fixed message.
\<close>

definition to_str_limit_message :: string where
  "to_str_limit_message =
     ''Exceeds the limit (4300 digits) for integer string conversion; ''
       @ ''use sys.set_int_max_str_digits() to increase the limit''"

definition format_comma :: "int \<Rightarrow> pyexn + string" where
  "format_comma i =
     (if 10 ^ max_str_digits \<le> \<bar>i\<bar> then Inl (ValueError to_str_limit_message)
      else Inr (comma_grouped i))"

subsection \<open>\<open>repr\<close> and \<open>str\<close>\<close>

definition hex_char :: "nat \<Rightarrow> char" where
  "hex_char n = ''0123456789abcdef'' ! (n mod 16)"

text \<open>
  \<open>repr\<close> of one character inside a string quoted with \<open>q\<close>: the quote and the backslash
  are escaped, tab, newline and carriage return have their letters, the other control
  characters and the unprintable code points below 256 are written \<open>\xNN\<close>.
\<close>

definition repr_char :: "char \<Rightarrow> char \<Rightarrow> string" where
  "repr_char q c =
     (let n = (of_char c :: nat) in
      if c = q \<or> c = CHR 0x5C then [CHR 0x5C, c]
      else if n = 9 then [CHR 0x5C, CHR ''t'']
      else if n = 10 then [CHR 0x5C, CHR ''n'']
      else if n = 13 then [CHR 0x5C, CHR ''r'']
      else if n < 32 \<or> (127 \<le> n \<and> n \<le> 160) \<or> n = 173
        then [CHR 0x5C, CHR ''x'', hex_char (n div 16), hex_char n]
      else [c])"

text \<open>
  \<open>repr(s)\<close> for a str: single quotes, unless the text holds a single quote and no
  double quote.
\<close>

definition repr_str :: "string \<Rightarrow> string" where
  "repr_str s =
     (let q = (if CHR 0x27 \<in> set s \<and> CHR 0x22 \<notin> set s then CHR 0x22 else CHR 0x27)
      in q # concat (map (repr_char q) s) @ [q])"

fun join :: "string \<Rightarrow> string list \<Rightarrow> string" where
  "join sep [] = []"
| "join sep [x] = x"
| "join sep (x # y # ys) = x @ sep @ join sep (y # ys)"

fun py_repr :: "pyval \<Rightarrow> string" where
  "py_repr PNone = ''None''"
| "py_repr (PBool b) = (if b then ''True'' else ''False'')"
| "py_repr (PInt i) = str_int i"
| "py_repr (PStr s) = repr_str s"
| "py_repr (PList xs) = ''['' @ join '', '' (map py_repr xs) @ '']''"
| "py_repr (PDict kvs) =
     ''{'' @ join '', '' (map (\<lambda>kv. repr_str (fst kv) @ '': '' @ py_repr (snd kv)) kvs) @ ''}''"

text \<open>\<open>str(v)\<close>, which is also what an f-string field \<open>{v}\<close> prints.\<close>

fun py_str :: "pyval \<Rightarrow> string" where
  "py_str (PStr s) = s"
| "py_str v = py_repr v"

subsection \<open>\<open>int(...)\<close>\<close>

definition is_digit :: "char \<Rightarrow> bool" where
  "is_digit c = (c \<in> set ''0123456789'')"

definition digit_val :: "char \<Rightarrow> nat" where
  "digit_val c = of_char c - 48"

text \<open>
  The characters \<open>int\<close> skips around a literal: tab, newline, vertical tab, form feed,
  carriage return, space, and below 256 also NEL (0x85) and the no-break space (0xA0).
\<close>

definition is_space :: "char \<Rightarrow> bool" where
  "is_space c =
     (c \<in> set [CHR 0x09, CHR 0x0A, CHR 0x0B, CHR 0x0C, CHR 0x0D, CHR 0x20, CHR 0x85, CHR 0xA0])"

text \<open>
  The digits of a base-10 literal: one or more digits, where single underscores may
  stand between digits. \<open>prev\<close> says whether the previous character was a digit.
\<close>

fun literal_digits :: "string \<Rightarrow> bool \<Rightarrow> nat \<Rightarrow> nat option" where
  "literal_digits [] prev acc = (if prev then Some acc else None)"
| "literal_digits (c # cs) prev acc =
     (if is_digit c then literal_digits cs True (10 * acc + digit_val c)
      else if c = CHR ''_'' \<and> prev then literal_digits cs False acc
      else None)"

definition strip :: "string \<Rightarrow> string" where
  "strip s = rev (dropWhile is_space (rev (dropWhile is_space s)))"

definition literal_char :: "char \<Rightarrow> bool" where
  "literal_char c = (is_digit c \<or> c = CHR ''_'')"

text \<open>The two messages of \<open>int(s)\<close>; the first quotes the argument with \<open>repr\<close>, cut to 200 characters.\<close>

definition invalid_literal_message :: "string \<Rightarrow> string" where
  "invalid_literal_message s =
     ''invalid literal for int() with base 10: '' @ take 200 (repr_str s)"

definition from_str_limit_message :: "nat \<Rightarrow> string" where
  "from_str_limit_message k =
     ''Exceeds the limit (4300 digits) for integer string conversion: value has ''
       @ dec_digits k @ '' digits; use sys.set_int_max_str_digits() to increase the limit''"

text \<open>
  \<open>int(s)\<close> for a str. After the surrounding space and the sign, the run of digits and
  underscores is scanned: a misplaced underscore, or no digit at all, is an invalid
  literal; then a run with more digits than the limit is refused; then anything left
  after the run is an invalid literal.
\<close>

definition int_str :: "string \<Rightarrow> pyexn + int" where
  "int_str s =
     (let t = strip s;
          neg = (t \<noteq> [] \<and> hd t = CHR ''-'');
          body = (if t \<noteq> [] \<and> (hd t = CHR ''-'' \<or> hd t = CHR ''+'') then tl t else t);
          run = takeWhile literal_char body;
          rest = dropWhile literal_char body
      in case literal_digits run False 0 of
           None \<Rightarrow> Inl (ValueError (invalid_literal_message s))
         | Some n \<Rightarrow>
             if max_str_digits < length (filter is_digit run)
               then Inl (ValueError (from_str_limit_message (length (filter is_digit run))))
             else if rest \<noteq> [] then Inl (ValueError (invalid_literal_message s))
             else Inr (if neg then - int n else int n))"

text \<open>\<open>int(v)\<close> for any value: a bool is an int, other non-strings are rejected.\<close>

fun py_int :: "pyval \<Rightarrow> pyexn + int" where
  "py_int (PStr s) = int_str s"
| "py_int (PInt i) = Inr (int_of_json i)"
| "py_int (PBool b) = Inr (if b then 1 else 0)"
| "py_int v = Inl TypeError"

subsection \<open>\<open>re.match(r'^-?\d+$', s)\<close>\<close>

text \<open>
  An optional minus sign, one or more digits, and then the end of the text, where
  \<open>$\<close> also matches just before a newline that ends the text.
\<close>

definition re_match_numeric :: "string \<Rightarrow> bool" where
  "re_match_numeric s =
     (let body = (case s of [] \<Rightarrow> [] | c # cs \<Rightarrow> if c = CHR ''-'' then cs else s);
          rest = dropWhile is_digit body
      in takeWhile is_digit body \<noteq> [] \<and> (rest = [] \<or> rest = [CHR 0x0A]))"

subsection \<open>Dict and container operations\<close>

text \<open>\<open>x.get(k, dflt)\<close>: only a dict has the method.\<close>

fun dict_get :: "pyval \<Rightarrow> string \<Rightarrow> pyval \<Rightarrow> pyexn + pyval" where
  "dict_get (PDict kvs) k dflt = Inr (case map_of kvs k of None \<Rightarrow> dflt | Some v \<Rightarrow> v)"
| "dict_get v k dflt = Inl AttributeError"

text \<open>\<open>x.items()\<close>.\<close>

fun dict_items :: "pyval \<Rightarrow> pyexn + (string \<times> pyval) list" where
  "dict_items (PDict kvs) = Inr kvs"
| "dict_items v = Inl AttributeError"

fun is_substring :: "string \<Rightarrow> string \<Rightarrow> bool" where
  "is_substring k [] = (k = [])"
| "is_substring k (c # cs) = (take (length k) (c # cs) = k \<or> is_substring k cs)"

text \<open>
  \<open>k in x\<close> for a str \<open>k\<close>: key membership in a dict, element membership in a list,
  substring test in a str; the other values are not containers.
\<close>

fun py_contains :: "string \<Rightarrow> pyval \<Rightarrow> pyexn + bool" where
  "py_contains k (PDict kvs) = Inr (map_of kvs k \<noteq> None)"
| "py_contains k (PList xs) = Inr (PStr k \<in> set xs)"
| "py_contains k (PStr s) = Inr (is_substring k s)"
| "py_contains k v = Inl TypeError"

text \<open>\<open>x[k]\<close> for a str \<open>k\<close>: only a dict can be indexed by a str.\<close>

fun py_getitem :: "pyval \<Rightarrow> string \<Rightarrow> pyexn + pyval" where
  "py_getitem (PDict kvs) k = (case map_of kvs k of None \<Rightarrow> Inl KeyError | Some v \<Rightarrow> Inr v)"
| "py_getitem v k = Inl TypeError"

section \<open>\<open>COREPEngine.validate_response\<close> (corep_engine.py)\<close>

definition required_fields :: "string list" where
  "required_fields = [''010'', ''020'', ''030'', ''100'']"

text \<open>
  The loop over \<open>required_fields\<close>. The two lists the source appends to are passed
  along; an exception leaves the function, so nothing is kept of them then.
\<close>

fun check_required ::
  "pyval \<Rightarrow> string list \<Rightarrow> string list \<times> string list \<Rightarrow> pyexn + string list \<times> string list"
where
  "check_required llm_data [] (errs, warns) = Inr (errs, warns)"
| "check_required llm_data (field_code # rest) (errs, warns) =
     (case dict_get llm_data ''data'' (PDict []) of
        Inl e \<Rightarrow> Inl e
      | Inr d \<Rightarrow>
     (case py_contains field_code d of
        Inl e \<Rightarrow> Inl e
      | Inr present \<Rightarrow>
          if \<not> present then
            check_required llm_data rest
              (errs @ [''Missing required field: '' @ field_code], warns)
          else
            (case py_getitem llm_data ''data'' of
               Inl e \<Rightarrow> Inl e
             | Inr d' \<Rightarrow>
            (case py_getitem d' field_code of
               Inl e \<Rightarrow> Inl e
             | Inr field_data \<Rightarrow>
            (case dict_get field_data ''value'' PNone of
               Inl e \<Rightarrow> Inl e
             | Inr v \<Rightarrow>
                 if \<not> truthy v then
                   check_required llm_data rest
                     (errs, warns @ [''Empty value for field: '' @ field_code])
                 else check_required llm_data rest (errs, warns))))))"

text \<open>The loop over \<open>llm_data.get("data", {}).items()\<close>.\<close>

fun check_types :: "(string \<times> pyval) list \<Rightarrow> string list \<Rightarrow> pyexn + string list" where
  "check_types [] warns = Inr warns"
| "check_types ((field_code, field_data) # rest) warns =
     (case dict_get field_data ''value'' (PStr []) of
        Inl e \<Rightarrow> Inl e
      | Inr v \<Rightarrow>
          if truthy v \<and> \<not> re_match_numeric (py_str v) then
            check_types rest
              (warns @ [''Non-numeric value in field '' @ field_code @ '': '' @ py_str v])
          else check_types rest warns)"

text \<open>
  The two summing loops share their body: \<open>sum_codes data codes acc\<close> adds to \<open>acc\<close>
  the value of every code of \<open>codes\<close> that is in \<open>data\<close> and has a truthy value.
\<close>

fun sum_codes :: "pyval \<Rightarrow> string list \<Rightarrow> int \<Rightarrow> pyexn + int" where
  "sum_codes data [] acc = Inr acc"
| "sum_codes data (code # rest) acc =
     (case py_contains code data of
        Inl e \<Rightarrow> Inl e
      | Inr present \<Rightarrow>
          if present then
            (case py_getitem data code of
               Inl e \<Rightarrow> Inl e
             | Inr field_data \<Rightarrow>
            (case dict_get field_data ''value'' (PStr ''0'') of
               Inl e \<Rightarrow> Inl e
             | Inr val_str \<Rightarrow>
                 if truthy val_str then
                   (case py_int val_str of
                      Inl e \<Rightarrow> Inl e
                    | Inr n \<Rightarrow> sum_codes data rest (acc + n))
                 else sum_codes data rest acc))
          else sum_codes data rest acc)"

text \<open>
  The two f-strings. Each formats its numbers from left to right, and each conversion
  can raise.
\<close>

definition mismatch_error :: "int \<Rightarrow> int \<Rightarrow> pyexn + string" where
  "mismatch_error calculated_cet1 reported_cet1 =
     (case format_comma calculated_cet1 of
        Inl e \<Rightarrow> Inl e
      | Inr calculated_text \<Rightarrow>
     (case format_comma reported_cet1 of
        Inl e \<Rightarrow> Inl e
      | Inr reported_text \<Rightarrow>
          Inr (''CET1 calculation mismatch: Calculated '' @ calculated_text
                 @ '' vs Reported '' @ reported_text)))"

definition negative_error :: "int \<Rightarrow> pyexn + string" where
  "negative_error reported_cet1 =
     (case format_comma reported_cet1 of
        Inl e \<Rightarrow> Inl e
      | Inr reported_text \<Rightarrow> Inr (''CET1 is negative: '' @ reported_text))"

text \<open>
  The body of the \<open>try\<close> block. The result is the list \<open>errors\<close> as the block left it,
  and the exception that ended the block, if one did: an entry appended before the
  exception stays in the list.
\<close>

definition cet1_calculation :: "pyval \<Rightarrow> string list \<Rightarrow> string list \<times> pyexn option" where
  "cet1_calculation llm_data errs =
     (case dict_get llm_data ''data'' (PDict []) of
        Inl e \<Rightarrow> (errs, Some e)
      | Inr data \<Rightarrow>
     (case sum_codes data [''010'', ''020'', ''030'', ''040''] 0 of
        Inl e \<Rightarrow> (errs, Some e)
      | Inr components \<Rightarrow>
     (case sum_codes data [''070''] 0 of
        Inl e \<Rightarrow> (errs, Some e)
      | Inr deductions \<Rightarrow>
     (case dict_get data ''100'' (PDict []) of
        Inl e \<Rightarrow> (errs, Some e)
      | Inr field_100 \<Rightarrow>
     (case dict_get field_100 ''value'' (PStr ''0'') of
        Inl e \<Rightarrow> (errs, Some e)
      | Inr reported_cet1_str \<Rightarrow>
     (case (if truthy reported_cet1_str then py_int reported_cet1_str else Inr 0) of
        Inl e \<Rightarrow> (errs, Some e)
      | Inr reported_cet1 \<Rightarrow>
     (case (if components - deductions \<noteq> reported_cet1
            then (case mismatch_error (components - deductions) reported_cet1 of
                    Inl e \<Rightarrow> Inl e
                  | Inr message \<Rightarrow> Inr (errs @ [message]))
            else Inr errs) of
        Inl e \<Rightarrow> (errs, Some e)
      | Inr errs1 \<Rightarrow>
          if reported_cet1 < 0 then
            (case negative_error reported_cet1 of
               Inl e \<Rightarrow> (errs1, Some e)
             | Inr message \<Rightarrow> (errs1 @ [message], None))
          else (errs1, None))))))))"

definition make_verdict :: "string list \<Rightarrow> string list \<Rightarrow> verdict" where
  "make_verdict errs warns = \<lparr>errors = errs, warnings = warns, is_valid = (length errs = 0)\<rparr>"

text \<open>
  The whole method. \<open>except ValueError\<close> turns that one kind of exception into a
  warning; every other exception propagates to the caller.
\<close>

definition validate_response :: "pyval \<Rightarrow> pyexn + verdict" where
  "validate_response llm_data =
     (case check_required llm_data required_fields ([], []) of
        Inl e \<Rightarrow> Inl e
      | Inr (errs, warns) \<Rightarrow>
     (case dict_get llm_data ''data'' (PDict []) of
        Inl e \<Rightarrow> Inl e
      | Inr d \<Rightarrow>
     (case dict_items d of
        Inl e \<Rightarrow> Inl e
      | Inr items \<Rightarrow>
     (case check_types items warns of
        Inl e \<Rightarrow> Inl e
      | Inr warns2 \<Rightarrow>
     (case cet1_calculation llm_data errs of
        (errs2, None) \<Rightarrow> Inr (make_verdict errs2 warns2)
      | (errs2, Some (ValueError msg)) \<Rightarrow>
          Inr (make_verdict errs2 (warns2 @ [''Calculation error: '' @ msg]))
      | (errs2, Some e) \<Rightarrow> Inl e)))))"

section \<open>\<open>COREPAssistant.validate_response\<close> (main.py)\<close>

text \<open>
  The command-line assistant carries its own copy of the method. It is translated
  separately, statement by statement, under the prefix \<open>assistant_\<close>.
\<close>

definition assistant_required_fields :: "string list" where
  "assistant_required_fields = [''010'', ''020'', ''030'', ''100'']"

fun assistant_check_required ::
  "pyval \<Rightarrow> string list \<Rightarrow> string list \<times> string list \<Rightarrow> pyexn + string list \<times> string list"
where
  "assistant_check_required llm_data [] (errs, warns) = Inr (errs, warns)"
| "assistant_check_required llm_data (field_code # rest) (errs, warns) =
     (case dict_get llm_data ''data'' (PDict []) of
        Inl e \<Rightarrow> Inl e
      | Inr d \<Rightarrow>
     (case py_contains field_code d of
        Inl e \<Rightarrow> Inl e
      | Inr present \<Rightarrow>
          if \<not> present then
            assistant_check_required llm_data rest
              (errs @ [''Missing required field: '' @ field_code], warns)
          else
            (case py_getitem llm_data ''data'' of
               Inl e \<Rightarrow> Inl e
             | Inr d' \<Rightarrow>
            (case py_getitem d' field_code of
               Inl e \<Rightarrow> Inl e
             | Inr field_data \<Rightarrow>
            (case dict_get field_data ''value'' PNone of
               Inl e \<Rightarrow> Inl e
             | Inr v \<Rightarrow>
                 if \<not> truthy v then
                   assistant_check_required llm_data rest
                     (errs, warns @ [''Empty value for field: '' @ field_code])
                 else assistant_check_required llm_data rest (errs, warns))))))"

fun assistant_check_types :: "(string \<times> pyval) list \<Rightarrow> string list \<Rightarrow> pyexn + string list" where
  "assistant_check_types [] warns = Inr warns"
| "assistant_check_types ((field_code, field_data) # rest) warns =
     (case dict_get field_data ''value'' (PStr []) of
        Inl e \<Rightarrow> Inl e
      | Inr v \<Rightarrow>
          if truthy v \<and> \<not> re_match_numeric (py_str v) then
            assistant_check_types rest
              (warns @ [''Non-numeric value in field '' @ field_code @ '': '' @ py_str v])
          else assistant_check_types rest warns)"

fun assistant_sum_codes :: "pyval \<Rightarrow> string list \<Rightarrow> int \<Rightarrow> pyexn + int" where
  "assistant_sum_codes data [] acc = Inr acc"
| "assistant_sum_codes data (code # rest) acc =
     (case py_contains code data of
        Inl e \<Rightarrow> Inl e
      | Inr present \<Rightarrow>
          if present then
            (case py_getitem data code of
               Inl e \<Rightarrow> Inl e
             | Inr field_data \<Rightarrow>
            (case dict_get field_data ''value'' (PStr ''0'') of
               Inl e \<Rightarrow> Inl e
             | Inr val_str \<Rightarrow>
                 if truthy val_str then
                   (case py_int val_str of
                      Inl e \<Rightarrow> Inl e
                    | Inr n \<Rightarrow> assistant_sum_codes data rest (acc + n))
                 else assistant_sum_codes data rest acc))
          else assistant_sum_codes data rest acc)"

definition assistant_mismatch_error :: "int \<Rightarrow> int \<Rightarrow> pyexn + string" where
  "assistant_mismatch_error calculated_cet1 reported_cet1 =
     (case format_comma calculated_cet1 of
        Inl e \<Rightarrow> Inl e
      | Inr calculated_text \<Rightarrow>
     (case format_comma reported_cet1 of
        Inl e \<Rightarrow> Inl e
      | Inr reported_text \<Rightarrow>
          Inr (''CET1 calculation mismatch: Calculated '' @ calculated_text
                 @ '' vs Reported '' @ reported_text)))"

definition assistant_negative_error :: "int \<Rightarrow> pyexn + string" where
  "assistant_negative_error reported_cet1 =
     (case format_comma reported_cet1 of
        Inl e \<Rightarrow> Inl e
      | Inr reported_text \<Rightarrow> Inr (''CET1 is negative: '' @ reported_text))"

definition assistant_cet1_calculation :: "pyval \<Rightarrow> string list \<Rightarrow> string list \<times> pyexn option" where
  "assistant_cet1_calculation llm_data errs =
     (case dict_get llm_data ''data'' (PDict []) of
        Inl e \<Rightarrow> (errs, Some e)
      | Inr data \<Rightarrow>
     (case assistant_sum_codes data [''010'', ''020'', ''030'', ''040''] 0 of
        Inl e \<Rightarrow> (errs, Some e)
      | Inr components \<Rightarrow>
     (case assistant_sum_codes data [''070''] 0 of
        Inl e \<Rightarrow> (errs, Some e)
      | Inr deductions \<Rightarrow>
     (case dict_get data ''100'' (PDict []) of
        Inl e \<Rightarrow> (errs, Some e)
      | Inr field_100 \<Rightarrow>
     (case dict_get field_100 ''value'' (PStr ''0'') of
        Inl e \<Rightarrow> (errs, Some e)
      | Inr reported_cet1_str \<Rightarrow>
     (case (if truthy reported_cet1_str then py_int reported_cet1_str else Inr 0) of
        Inl e \<Rightarrow> (errs, Some e)
      | Inr reported_cet1 \<Rightarrow>
     (case (if components - deductions \<noteq> reported_cet1
            then (case assistant_mismatch_error (components - deductions) reported_cet1 of
                    Inl e \<Rightarrow> Inl e
                  | Inr message \<Rightarrow> Inr (errs @ [message]))
            else Inr errs) of
        Inl e \<Rightarrow> (errs, Some e)
      | Inr errs1 \<Rightarrow>
          if reported_cet1 < 0 then
            (case assistant_negative_error reported_cet1 of
               Inl e \<Rightarrow> (errs1, Some e)
             | Inr message \<Rightarrow> (errs1 @ [message], None))
          else (errs1, None))))))))"

definition assistant_make_verdict :: "string list \<Rightarrow> string list \<Rightarrow> verdict" where
  "assistant_make_verdict errs warns = \<lparr>errors = errs, warnings = warns, is_valid = (length errs = 0)\<rparr>"

definition assistant_validate_response :: "pyval \<Rightarrow> pyexn + verdict" where
  "assistant_validate_response llm_data =
     (case assistant_check_required llm_data assistant_required_fields ([], []) of
        Inl e \<Rightarrow> Inl e
      | Inr (errs, warns) \<Rightarrow>
     (case dict_get llm_data ''data'' (PDict []) of
        Inl e \<Rightarrow> Inl e
      | Inr d \<Rightarrow>
     (case dict_items d of
        Inl e \<Rightarrow> Inl e
      | Inr items \<Rightarrow>
     (case assistant_check_types items warns of
        Inl e \<Rightarrow> Inl e
      | Inr warns2 \<Rightarrow>
     (case assistant_cet1_calculation llm_data errs of
        (errs2, None) \<Rightarrow> Inr (assistant_make_verdict errs2 warns2)
      | (errs2, Some (ValueError msg)) \<Rightarrow>
          Inr (assistant_make_verdict errs2 (warns2 @ [''Calculation error: '' @ msg]))
      | (errs2, Some e) \<Rightarrow> Inl e)))))"

section \<open>Vocabulary of the statements\<close>

text \<open>
  A populated template, as the specification describes it: a dict whose \<open>data\<close> entry is a
  dict of fields, each field a dict whose \<open>value\<close>, when it has one, is a scalar (a
  string, a number, a bool or null).
\<close>

fun scalar :: "pyval \<Rightarrow> bool" where
  "scalar (PList xs) = False"
| "scalar (PDict kvs) = False"
| "scalar v = True"

fun field_ok :: "pyval \<Rightarrow> bool" where
  "field_ok (PDict kvs) = (case map_of kvs ''value'' of None \<Rightarrow> True | Some v \<Rightarrow> scalar v)"
| "field_ok v = False"

fun data_of :: "pyval \<Rightarrow> (string \<times> pyval) list option" where
  "data_of (PDict entries) = (case map_of entries ''data'' of Some (PDict d) \<Rightarrow> Some d | _ \<Rightarrow> None)"
| "data_of v = None"

definition populated_template :: "pyval \<Rightarrow> bool" where
  "populated_template x =
     (case data_of x of None \<Rightarrow> False | Some d \<Rightarrow> list_all (\<lambda>kv. field_ok (snd kv)) d)"

text \<open>The \<open>value\<close> attribute of the field \<open>code\<close> of the data mapping \<open>d\<close>, if there is one.\<close>

definition field_value :: "(string \<times> pyval) list \<Rightarrow> string \<Rightarrow> pyval option" where
  "field_value d code =
     (case map_of d code of Some (PDict kvs) \<Rightarrow> map_of kvs ''value'' | _ \<Rightarrow> None)"




text \<open>
  The specification's numeric pattern, in its own words: an optional leading minus sign
  followed by one or more decimal digits only; and the integer such a text denotes.
\<close>

definition unsigned_part :: "string \<Rightarrow> string" where
  "unsigned_part s = (case s of [] \<Rightarrow> [] | c # cs \<Rightarrow> if c = CHR ''-'' then cs else s)"

definition numeric_syntax :: "string \<Rightarrow> bool" where
  "numeric_syntax s = (unsigned_part s \<noteq> [] \<and> list_all is_digit (unsigned_part s))"

definition digits_value :: "string \<Rightarrow> nat" where
  "digits_value ds = foldl (\<lambda>a c. 10 * a + digit_val c) 0 ds"

definition int_value :: "string \<Rightarrow> int" where
  "int_value s =
     (if s \<noteq> [] \<and> hd s = CHR ''-'' then - int (digits_value (tl s)) else int (digits_value s))"

text \<open>What the first two passes report for a data mapping whose entries are dicts.\<close>

definition value_or :: "pyval \<Rightarrow> pyval \<Rightarrow> pyval" where
  "value_or field_data dflt =
     (case field_data of
        PDict kvs \<Rightarrow> (case map_of kvs ''value'' of None \<Rightarrow> dflt | Some v \<Rightarrow> v)
      | _ \<Rightarrow> dflt)"

definition missing_errors :: "(string \<times> pyval) list \<Rightarrow> string list \<Rightarrow> string list" where
  "missing_errors d codes =
     map (\<lambda>c. ''Missing required field: '' @ c) (filter (\<lambda>c. map_of d c = None) codes)"

definition is_empty_field :: "(string \<times> pyval) list \<Rightarrow> string \<Rightarrow> bool" where
  "is_empty_field d c =
     (case map_of d c of None \<Rightarrow> False | Some f \<Rightarrow> \<not> truthy (value_or f PNone))"

definition empty_warnings :: "(string \<times> pyval) list \<Rightarrow> string list \<Rightarrow> string list" where
  "empty_warnings d codes =
     map (\<lambda>c. ''Empty value for field: '' @ c) (filter (is_empty_field d) codes)"

definition type_warning :: "string \<times> pyval \<Rightarrow> string list" where
  "type_warning kv =
     (let v = value_or (snd kv) (PStr []) in
      if truthy v \<and> \<not> re_match_numeric (py_str v)
      then [''Non-numeric value in field '' @ fst kv @ '': '' @ py_str v]
      else [])"

definition type_warnings :: "(string \<times> pyval) list \<Rightarrow> string list" where
  "type_warnings d = concat (map type_warning d)"

text \<open>
  A field the summing loops can read: absent, or with a value that is falsy or that
  \<open>int\<close> accepts.
\<close>

definition amount_ok :: "(string \<times> pyval) list \<Rightarrow> string \<Rightarrow> bool" where
  "amount_ok d c =
     (case map_of d c of
        None \<Rightarrow> True
      | Some f \<Rightarrow>
          (let v = value_or f (PStr ''0'') in
           \<not> truthy v \<or> (case py_int v of Inl e \<Rightarrow> False | Inr n \<Rightarrow> True)))"

text \<open>What such a field adds to a sum, and what pass 3 and pass 4 then report.\<close>

definition amount :: "(string \<times> pyval) list \<Rightarrow> string \<Rightarrow> int" where
  "amount d c =
     (case map_of d c of
        None \<Rightarrow> 0
      | Some f \<Rightarrow>
          (let v = value_or f (PStr ''0'') in
           if truthy v then (case py_int v of Inl e \<Rightarrow> 0 | Inr n \<Rightarrow> n) else 0))"

definition calculated :: "(string \<times> pyval) list \<Rightarrow> int" where
  "calculated d =
     amount d ''010'' + amount d ''020'' + amount d ''030'' + amount d ''040'' - amount d ''070''"

definition mismatch_text :: "int \<Rightarrow> int \<Rightarrow> string" where
  "mismatch_text c r =
     ''CET1 calculation mismatch: Calculated '' @ comma_grouped c
       @ '' vs Reported '' @ comma_grouped r"

definition negative_text :: "int \<Rightarrow> string" where
  "negative_text r = ''CET1 is negative: '' @ comma_grouped r"

definition arithmetic_errors :: "(string \<times> pyval) list \<Rightarrow> string list" where
  "arithmetic_errors d =
     (if calculated d \<noteq> amount d ''100''
      then [mismatch_text (calculated d) (amount d ''100'')] else [])
     @ (if amount d ''100'' < 0 then [negative_text (amount d ''100'')] else [])"

definition amount_codes :: "string list" where
  "amount_codes = [''010'', ''020'', ''030'', ''040'', ''070'', ''100'']"

text \<open>
  The arithmetic block runs to its end: every field it reads can be read, and the
  calculated total, when it has to be printed, is within the limit of digits.
\<close>

definition arithmetic_ok :: "(string \<times> pyval) list \<Rightarrow> bool" where
  "arithmetic_ok d =
     (list_all (amount_ok d) amount_codes
      \<and> (calculated d = amount d ''100'' \<or> \<bar>calculated d\<bar> < 10 ^ max_str_digits))"

section \<open>Example inputs\<close>

text \<open>A field as the extraction step writes it, and a template around a data mapping.\<close>

definition text_field :: "string \<Rightarrow> pyval" where
  "text_field s = PDict [(''value'', PStr s), (''description'', PStr ''amount'')]"

definition template :: "(string \<times> pyval) list \<Rightarrow> pyval" where
  "template d =
     PDict [(''template'', PStr ''C 01.00''), (''reporting_date'', PStr ''2024-12-31''),
            (''currency'', PStr ''GBP''), (''data'', PDict d)]"

text \<open>The specification's mismatch scenario.\<close>

definition mismatch_data :: "(string \<times> pyval) list" where
  "mismatch_data =
     [(''010'', text_field ''150000000''), (''020'', text_field ''75000000''),
      (''030'', text_field ''300000000''), (''040'', text_field ''25000000''),
      (''070'', text_field ''45000000''), (''100'', text_field ''999'')]"

text \<open>A total of -10 that matches its components: nothing added, 10 deducted.\<close>

definition negative_data :: "(string \<times> pyval) list" where
  "negative_data =
     [(''010'', text_field ''0''), (''020'', text_field ''0''), (''030'', text_field ''0''),
      (''040'', text_field ''0''), (''070'', text_field ''10''), (''100'', text_field ''-10'')]"

text \<open>Field 010 holds \<open>abc\<close>; the other amounts are 1, 1 and a reported total of 999.\<close>

definition non_numeric_data :: "(string \<times> pyval) list" where
  "non_numeric_data =
     [(''010'', text_field ''abc''), (''020'', text_field ''1''), (''030'', text_field ''1''),
      (''100'', text_field ''999'')]"

text \<open>Field 010 holds \<open>abc\<close> and the reported total is -10.\<close>

definition negative_unparsed_data :: "(string \<times> pyval) list" where
  "negative_unparsed_data =
     [(''010'', text_field ''abc''), (''020'', text_field ''0''), (''030'', text_field ''0''),
      (''100'', text_field ''-10'')]"

text \<open>Field 010 holds the digit 5 followed by a newline.\<close>

definition newline_data :: "(string \<times> pyval) list" where
  "newline_data =
     [(''010'', text_field [CHR ''5'', CHR 0x0A]), (''020'', text_field ''0''),
      (''030'', text_field ''0''), (''100'', text_field ''5'')]"



text \<open>Field 020 as the JSON number 0 and as the string \<open>0\<close>, in an otherwise equal template.\<close>

definition zero_base_data :: "(string \<times> pyval) list" where
  "zero_base_data =
     [(''010'', text_field ''7''), (''020'', text_field ''3''), (''030'', text_field ''1''),
      (''100'', text_field ''8'')]"

definition zero_field_attrs :: "(string \<times> pyval) list" where
  "zero_field_attrs = [(''value'', PStr ''3''), (''description'', PStr ''amount'')]"

text \<open>Field 010 reported but empty, field 030 not reported, and no field 040 or 070.\<close>

definition incomplete_data :: "(string \<times> pyval) list" where
  "incomplete_data = [(''010'', text_field []), (''020'', text_field ''5''), (''100'', text_field ''5'')]"

text \<open>The example of the prompt: the reported total is the sum of its components.\<close>

definition reconciled_data :: "(string \<times> pyval) list" where
  "reconciled_data =
     [(''010'', text_field ''150000000''), (''020'', text_field ''75000000''),
      (''030'', text_field ''300000000''), (''040'', text_field ''25000000''),
      (''070'', text_field ''45000000''), (''100'', text_field ''505000000'')]"

text \<open>A total of -10 that does not match its components, which add up to 5.\<close>

definition negative_mismatch_data :: "(string \<times> pyval) list" where
  "negative_mismatch_data =
     [(''010'', text_field ''5''), (''020'', text_field ''0''), (''030'', text_field ''0''),
      (''040'', text_field ''0''), (''070'', text_field ''0''), (''100'', text_field ''-10'')]"

definition zero_number_data :: "(string \<times> pyval) list" where
  "zero_number_data =
     AList.update ''020'' (PDict (AList.update ''value'' (PInt 0) zero_field_attrs)) zero_base_data"

definition zero_string_data :: "(string \<times> pyval) list" where
  "zero_string_data =
     AList.update ''020'' (PDict (AList.update ''value'' (PStr ''0'') zero_field_attrs)) zero_base_data"

text \<open>
  As many nines as the limit allows in field 010 and 1 in field 020: every field can be
  parsed, and the calculated total has one digit more than the limit.
\<close>

definition nines :: string where
  "nines = replicate max_str_digits (CHR ''9'')"


definition negative_overflow_data :: "(string \<times> pyval) list" where
  "negative_overflow_data =
     [(''010'', text_field nines), (''020'', text_field ''1''), (''030'', text_field ''0''),
      (''040'', text_field ''0''), (''070'', text_field ''0''), (''100'', text_field ''-10'')]"

section \<open>The passes on a populated template\<close>

text \<open>
  On a populated template no pass raises anything but \<open>ValueError\<close>, from \<open>int\<close> or from
  printing a total beyond the limit of digits, so each pass has a closed form: the lists
  of the vocabulary above.
\<close>

lemma max_str_digits_pos: "0 < max_str_digits"
  by (simp add: max_str_digits_def)

lemma small_digits: "k \<le> 100 \<Longrightarrow> \<not> max_str_digits < k"
  by (simp add: max_str_digits_def)

lemma small_int_less:
  fixes i :: int
  assumes "i < 10 ^ 18"
  shows "i < 10 ^ max_str_digits"
proof -
  have "(10::int) ^ 18 \<le> 10 ^ max_str_digits"
    by (rule power_increasing) (simp_all add: max_str_digits_def)
  with assms show ?thesis by (rule less_le_trans)
qed

lemma small_int:
  fixes i :: int
  assumes "i < 10 ^ 18"
  shows "\<not> 10 ^ max_str_digits \<le> i"
  using small_int_less [OF assms] by (simp add: not_le)

lemma format_comma_ok:
  "\<bar>i\<bar> < 10 ^ max_str_digits \<Longrightarrow> format_comma i = Inr (comma_grouped i)"
  by (simp add: format_comma_def not_le [symmetric])

lemma format_comma_over:
  "10 ^ max_str_digits \<le> \<bar>i\<bar> \<Longrightarrow> format_comma i = Inl (ValueError to_str_limit_message)"
  by (simp add: format_comma_def)

lemma mismatch_error_ok:
  "\<bar>c\<bar> < 10 ^ max_str_digits \<Longrightarrow> \<bar>r\<bar> < 10 ^ max_str_digits \<Longrightarrow>
     mismatch_error c r = Inr (mismatch_text c r)"
  by (simp add: mismatch_error_def mismatch_text_def format_comma_ok)

lemma mismatch_error_over:
  "10 ^ max_str_digits \<le> \<bar>c\<bar> \<Longrightarrow> mismatch_error c r = Inl (ValueError to_str_limit_message)"
  by (simp add: mismatch_error_def format_comma_over)

lemma negative_error_ok:
  "\<bar>r\<bar> < 10 ^ max_str_digits \<Longrightarrow> negative_error r = Inr (negative_text r)"
  by (simp add: negative_error_def negative_text_def format_comma_ok)

lemma digit_val_le: "is_digit c \<Longrightarrow> digit_val c \<le> 9"
  by (auto simp: is_digit_def digit_val_def)

lemma literal_bound:
  "literal_digits cs p acc = Some n \<Longrightarrow> n < (acc + 1) * 10 ^ length (filter is_digit cs)"
proof (induction cs arbitrary: p acc)
  case Nil
  then show ?case by (simp split: if_splits)
next
  case (Cons c cs)
  show ?case
  proof (cases "is_digit c")
    case True
    with Cons.prems have "literal_digits cs True (10 * acc + digit_val c) = Some n" by simp
    then have "n < (10 * acc + digit_val c + 1) * 10 ^ length (filter is_digit cs)"
      by (rule Cons.IH)
    moreover have "10 * acc + digit_val c + 1 \<le> (acc + 1) * 10"
      using digit_val_le [OF True] by simp
    then have "(10 * acc + digit_val c + 1) * 10 ^ length (filter is_digit cs)
                 \<le> ((acc + 1) * 10) * 10 ^ length (filter is_digit cs)"
      by (rule mult_le_mono1)
    ultimately have "n < ((acc + 1) * 10) * 10 ^ length (filter is_digit cs)"
      by (rule less_le_trans)
    then show ?thesis using True by (simp add: algebra_simps)
  next
    case False
    with Cons.prems have "literal_digits cs False acc = Some n"
      by (simp split: if_splits)
    then have "n < (acc + 1) * 10 ^ length (filter is_digit cs)" by (rule Cons.IH)
    then show ?thesis using False by simp
  qed
qed

lemma int_str_bound:
  assumes "int_str s = Inr n"
  shows "\<bar>n\<bar> < 10 ^ max_str_digits"
proof -
  from assms obtain run m where m: "literal_digits run False 0 = Some m"
    and k: "\<not> max_str_digits < length (filter is_digit run)"
    and n: "n = int m \<or> n = - int m"
    by (auto simp: int_str_def Let_def split: option.splits if_splits)
  from literal_bound [OF m] have "m < 10 ^ length (filter is_digit run)" by simp
  also have "\<dots> \<le> 10 ^ max_str_digits"
    using k by (intro power_increasing) simp_all
  finally have "int m < int (10 ^ max_str_digits)" by (simp only: of_nat_less_iff)
  then have "int m < 10 ^ max_str_digits" by simp
  with n show ?thesis by auto
qed

lemma int_of_json_bound: "\<bar>int_of_json i\<bar> < 10 ^ max_str_digits"
  by transfer simp

lemma py_int_bound:
  assumes "py_int v = Inr r"
  shows "\<bar>r\<bar> < 10 ^ max_str_digits"
proof (cases v)
  case (PStr s)
  with assms show ?thesis by (simp add: int_str_bound)
next
  case (PInt i)
  with assms show ?thesis using int_of_json_bound [of i] by simp
next
  case (PBool b)
  have "(1::int) < 10 ^ max_str_digits"
    by (rule one_less_power) (simp_all add: max_str_digits_pos)
  with assms PBool show ?thesis by (auto split: if_splits)
qed (use assms in simp_all)

lemma amount_bound: "\<bar>amount d c\<bar> < 10 ^ max_str_digits"
proof -
  have z: "\<bar>0::int\<bar> < 10 ^ max_str_digits" by simp
  show ?thesis
    using z by (auto simp: amount_def Let_def py_int_bound split: option.splits sum.splits)
qed

lemma data_of_get:
  "data_of x = Some d \<Longrightarrow> dict_get x ''data'' (PDict []) = Inr (PDict d)"
  by (cases x) (auto split: option.splits pyval.splits)

lemma data_of_getitem:
  "data_of x = Some d \<Longrightarrow> py_getitem x ''data'' = Inr (PDict d)"
  by (cases x) (auto split: option.splits pyval.splits)

lemma map_of_field_ok:
  "list_all (\<lambda>kv. field_ok (snd kv)) d \<Longrightarrow> map_of d c = Some f \<Longrightarrow> field_ok f"
  by (induction d) (auto split: if_splits)

lemma field_ok_get:
  "field_ok f \<Longrightarrow> dict_get f ''value'' dflt = Inr (value_or f dflt)"
  by (cases f) (auto simp: value_or_def)

lemma check_required_closed:
  assumes "data_of x = Some d" and "list_all (\<lambda>kv. field_ok (snd kv)) d"
  shows "check_required x codes (errs, warns) =
           Inr (errs @ missing_errors d codes, warns @ empty_warnings d codes)"
proof (induction codes arbitrary: errs warns)
  case Nil
  show ?case by (simp add: missing_errors_def empty_warnings_def)
next
  case (Cons c cs)
  show ?case
  proof (cases "map_of d c")
    case None
    then show ?thesis
      using assms(1) Cons
      by (simp add: data_of_get missing_errors_def empty_warnings_def is_empty_field_def)
  next
    case (Some f)
    then have "field_ok f" by (rule map_of_field_ok [OF assms(2)])
    then show ?thesis
      using assms(1) Cons Some
      by (simp add: data_of_get data_of_getitem field_ok_get missing_errors_def
            empty_warnings_def is_empty_field_def)
  qed
qed

lemma check_types_closed:
  "list_all (\<lambda>kv. field_ok (snd kv)) d \<Longrightarrow> check_types d warns = Inr (warns @ type_warnings d)"
proof (induction d arbitrary: warns)
  case Nil
  show ?case by (simp add: type_warnings_def)
next
  case (Cons kv d)
  obtain k f where kv: "kv = (k, f)" by (cases kv)
  from Cons.prems have f: "field_ok f" and rest: "list_all (\<lambda>kv. field_ok (snd kv)) d"
    by (simp_all add: kv)
  show ?case
    using Cons.IH [OF rest] f
    by (simp add: kv field_ok_get type_warnings_def type_warning_def Let_def)
qed

lemma scalar_int_cases:
  "scalar v \<Longrightarrow> truthy v \<Longrightarrow>
     (\<exists>n. py_int v = Inr n) \<or> (\<exists>m. py_int v = Inl (ValueError m))"
  by (cases v) (auto simp: int_str_def Let_def split: option.splits if_splits)

lemma field_ok_scalar: "field_ok f \<Longrightarrow> scalar dflt \<Longrightarrow> scalar (value_or f dflt)"
  by (cases f) (auto simp: value_or_def split: option.splits)

lemma sum_codes_step:
  assumes "list_all (\<lambda>kv. field_ok (snd kv)) d"
  shows "sum_codes (PDict d) (c # cs) acc =
           (if amount_ok d c then sum_codes (PDict d) cs (acc + amount d c)
            else Inl (ValueError (case py_int (value_or (the (map_of d c)) (PStr ''0'')) of
                        Inl (ValueError m) \<Rightarrow> m | _ \<Rightarrow> [])))"
proof (cases "map_of d c")
  case None
  then show ?thesis by (simp add: amount_ok_def amount_def)
next
  case (Some f)
  have f: "field_ok f" by (rule map_of_field_ok [OF assms Some])
  have sc: "scalar (value_or f (PStr ''0''))" using f by (simp add: field_ok_scalar)
  show ?thesis
  proof (cases "truthy (value_or f (PStr ''0''))")
    case False
    then show ?thesis using Some f by (simp add: field_ok_get amount_ok_def amount_def)
  next
    case True
    from scalar_int_cases [OF sc True] show ?thesis
      using Some f True by (auto simp: field_ok_get amount_ok_def amount_def)
  qed
qed

lemma sum_codes_ok:
  assumes "list_all (\<lambda>kv. field_ok (snd kv)) d"
  shows "list_all (amount_ok d) cs \<Longrightarrow>
           sum_codes (PDict d) cs acc = Inr (acc + sum_list (map (amount d) cs))"
proof (induction cs arbitrary: acc)
  case Nil
  show ?case by simp
next
  case (Cons c cs)
  then show ?case by (simp add: sum_codes_step [OF assms] del: sum_codes.simps)
qed

lemma sum_codes_fail:
  assumes "list_all (\<lambda>kv. field_ok (snd kv)) d"
  shows "\<not> list_all (amount_ok d) cs \<Longrightarrow> \<exists>m. sum_codes (PDict d) cs acc = Inl (ValueError m)"
proof (induction cs arbitrary: acc)
  case Nil
  then show ?case by simp
next
  case (Cons c cs)
  then show ?case by (simp add: sum_codes_step [OF assms] del: sum_codes.simps)
qed

lemma reported_closed:
  assumes "list_all (\<lambda>kv. field_ok (snd kv)) d"
  shows "(case dict_get (PDict d) ''100'' (PDict []) of Inl e \<Rightarrow> Inl e | Inr f \<Rightarrow>
           (case dict_get f ''value'' (PStr ''0'') of Inl e \<Rightarrow> Inl e | Inr v \<Rightarrow>
              (if truthy v then py_int v else Inr 0)))
         = sum_codes (PDict d) [''100''] 0"
proof (cases "map_of d ''100''")
  case None
  then show ?thesis
    by (simp add: int_str_def strip_def is_space_def is_digit_def digit_val_def
          literal_char_def small_digits max_str_digits_pos Let_def)
next
  case (Some f)
  have f: "field_ok f" by (rule map_of_field_ok [OF assms Some])
  show ?thesis using Some f by (auto simp: field_ok_get split: sum.splits)
qed

lemma int_str_zero: "int_str ''0'' = Inr 0"
  by (simp add: int_str_def strip_def is_space_def is_digit_def digit_val_def
        literal_char_def small_digits max_str_digits_pos Let_def)

lemma cet1_closed:
  assumes "data_of x = Some d" and "list_all (\<lambda>kv. field_ok (snd kv)) d"
  shows "cet1_calculation x errs =
     (case sum_codes (PDict d) [''010'', ''020'', ''030'', ''040''] 0 of
        Inl e \<Rightarrow> (errs, Some e)
      | Inr components \<Rightarrow>
     (case sum_codes (PDict d) [''070''] 0 of
        Inl e \<Rightarrow> (errs, Some e)
      | Inr deductions \<Rightarrow>
     (case sum_codes (PDict d) [''100''] 0 of
        Inl e \<Rightarrow> (errs, Some e)
      | Inr reported \<Rightarrow>
     (case (if components - deductions \<noteq> reported
            then (case mismatch_error (components - deductions) reported of
                    Inl e \<Rightarrow> Inl e
                  | Inr message \<Rightarrow> Inr (errs @ [message]))
            else Inr errs) of
        Inl e \<Rightarrow> (errs, Some e)
      | Inr errs1 \<Rightarrow>
          if reported < 0 then
            (case negative_error reported of
               Inl e \<Rightarrow> (errs1, Some e)
             | Inr message \<Rightarrow> (errs1 @ [message], None))
          else (errs1, None)))))"
proof (cases "map_of d ''100''")
  case None
  then have r: "sum_codes (PDict d) [''100''] 0 = Inr 0" by simp
  show ?thesis
    using None
    by (simp add: cet1_calculation_def data_of_get [OF assms(1)] r int_str_zero
          del: sum_codes.simps split: sum.splits)
next
  case (Some f)
  have f: "field_ok f" by (rule map_of_field_ok [OF assms(2) Some])
  have r: "sum_codes (PDict d) [''100''] 0 =
             (if truthy (value_or f (PStr ''0'')) then py_int (value_or f (PStr ''0'')) else Inr 0)"
    using Some f by (simp add: field_ok_get split: sum.splits)
  show ?thesis
    using Some f
    by (simp add: cet1_calculation_def data_of_get [OF assms(1)] r field_ok_get
          del: sum_codes.simps split: sum.splits)
qed

lemma cet1_sums:
  assumes "data_of x = Some d" and "list_all (\<lambda>kv. field_ok (snd kv)) d"
    and "list_all (amount_ok d) amount_codes"
  shows "cet1_calculation x errs =
     (case (if calculated d \<noteq> amount d ''100''
            then (case mismatch_error (calculated d) (amount d ''100'') of
                    Inl e \<Rightarrow> Inl e
                  | Inr message \<Rightarrow> Inr (errs @ [message]))
            else Inr errs) of
        Inl e \<Rightarrow> (errs, Some e)
      | Inr errs1 \<Rightarrow>
          if amount d ''100'' < 0 then
            (case negative_error (amount d ''100'') of
               Inl e \<Rightarrow> (errs1, Some e)
             | Inr message \<Rightarrow> (errs1 @ [message], None))
          else (errs1, None))"
proof -
  have a: "list_all (amount_ok d) [''010'', ''020'', ''030'', ''040'']"
    and b: "list_all (amount_ok d) [''070'']" and c: "list_all (amount_ok d) [''100'']"
    using assms(3) by (simp_all add: amount_codes_def)
  have calc: "0 + sum_list (map (amount d) [''010'', ''020'', ''030'', ''040''])
                - (0 + sum_list (map (amount d) [''070''])) = calculated d"
    by (simp add: calculated_def)
  have rep: "0 + sum_list (map (amount d) [''100'']) = amount d ''100''" by simp
  show ?thesis
    unfolding cet1_closed [OF assms(1,2)] sum_codes_ok [OF assms(2) a]
      sum_codes_ok [OF assms(2) b] sum_codes_ok [OF assms(2) c] sum.case calc rep
    by (rule refl)
qed

lemma cet1_ok:
  assumes "data_of x = Some d" and "list_all (\<lambda>kv. field_ok (snd kv)) d"
    and "arithmetic_ok d"
  shows "cet1_calculation x errs = (errs @ arithmetic_errors d, None)"
proof -
  from assms(3) have all: "list_all (amount_ok d) amount_codes"
    and lim: "calculated d = amount d ''100'' \<or> \<bar>calculated d\<bar> < 10 ^ max_str_digits"
    by (simp_all add: arithmetic_ok_def)
  have neg: "negative_error (amount d ''100'') = Inr (negative_text (amount d ''100''))"
    by (rule negative_error_ok) (rule amount_bound)
  show ?thesis
  proof (cases "calculated d = amount d ''100''")
    case True
    then show ?thesis
      by (simp add: cet1_sums [OF assms(1,2) all] neg arithmetic_errors_def)
  next
    case False
    with lim have "\<bar>calculated d\<bar> < 10 ^ max_str_digits" by simp
    then have "mismatch_error (calculated d) (amount d ''100'')
                 = Inr (mismatch_text (calculated d) (amount d ''100''))"
      by (rule mismatch_error_ok) (rule amount_bound)
    with False show ?thesis
      by (simp add: cet1_sums [OF assms(1,2) all] neg arithmetic_errors_def)
  qed
qed

lemma cet1_overflow:
  assumes "data_of x = Some d" and "list_all (\<lambda>kv. field_ok (snd kv)) d"
    and "list_all (amount_ok d) amount_codes"
    and "calculated d \<noteq> amount d ''100''" and "10 ^ max_str_digits \<le> \<bar>calculated d\<bar>"
  shows "cet1_calculation x errs = (errs, Some (ValueError to_str_limit_message))"
  using assms(4)
  by (simp add: cet1_sums [OF assms(1,2,3)] mismatch_error_over [OF assms(5)])

lemma cet1_fail:
  assumes "data_of x = Some d" and "list_all (\<lambda>kv. field_ok (snd kv)) d"
    and "\<not> arithmetic_ok d"
  shows "\<exists>m. cet1_calculation x errs = (errs, Some (ValueError m))"
proof (cases "list_all (amount_ok d) amount_codes")
  case all: True
  with assms(3) have "calculated d \<noteq> amount d ''100''"
    and "10 ^ max_str_digits \<le> \<bar>calculated d\<bar>"
    by (simp_all add: arithmetic_ok_def not_less)
  then show ?thesis using cet1_overflow [OF assms(1,2) all] by blast
next
  case none: False
  show ?thesis
  proof (cases "list_all (amount_ok d) [''010'', ''020'', ''030'', ''040'']")
    case False
    from sum_codes_fail [OF assms(2) False, of 0] show ?thesis
      by (auto simp: cet1_closed [OF assms(1,2)] simp del: sum_codes.simps)
  next
    case a: True
    show ?thesis
    proof (cases "list_all (amount_ok d) [''070'']")
      case False
      from sum_codes_fail [OF assms(2) False, of 0] show ?thesis
        by (auto simp: cet1_closed [OF assms(1,2)] sum_codes_ok [OF assms(2) a]
              simp del: sum_codes.simps)
    next
      case b: True
      have "\<not> list_all (amount_ok d) [''100'']"
        using none a b by (simp add: amount_codes_def)
      from sum_codes_fail [OF assms(2) this, of 0] show ?thesis
        by (auto simp: cet1_closed [OF assms(1,2)] sum_codes_ok [OF assms(2) a]
              sum_codes_ok [OF assms(2) b] simp del: sum_codes.simps)
    qed
  qed
qed

lemma populated_templateD:
  "populated_template x \<Longrightarrow> \<exists>d. data_of x = Some d \<and> list_all (\<lambda>kv. field_ok (snd kv)) d"
  by (auto simp: populated_template_def split: option.splits)

lemma validate_prefix:
  assumes "data_of x = Some d" and "list_all (\<lambda>kv. field_ok (snd kv)) d"
  shows "validate_response x =
     (case cet1_calculation x (missing_errors d required_fields) of
        (errs2, None) \<Rightarrow>
          Inr (make_verdict errs2 (empty_warnings d required_fields @ type_warnings d))
      | (errs2, Some (ValueError msg)) \<Rightarrow>
          Inr (make_verdict errs2
                 (empty_warnings d required_fields @ type_warnings d
                    @ [''Calculation error: '' @ msg]))
      | (errs2, Some e) \<Rightarrow> Inl e)"
  by (simp add: validate_response_def check_required_closed [OF assms]
        data_of_get [OF assms(1)] check_types_closed [OF assms(2)]
        split: prod.splits option.splits pyexn.splits)

lemma validate_ok:
  assumes "data_of x = Some d" and "list_all (\<lambda>kv. field_ok (snd kv)) d"
    and "arithmetic_ok d"
  shows "validate_response x =
           Inr (make_verdict (missing_errors d required_fields @ arithmetic_errors d)
                  (empty_warnings d required_fields @ type_warnings d))"
  by (simp add: validate_prefix [OF assms(1,2)] cet1_ok [OF assms])

lemma validate_fail:
  assumes "data_of x = Some d" and "list_all (\<lambda>kv. field_ok (snd kv)) d"
    and "\<not> arithmetic_ok d"
  shows "\<exists>m. validate_response x =
           Inr (make_verdict (missing_errors d required_fields)
                  (empty_warnings d required_fields @ type_warnings d
                     @ [''Calculation error: '' @ m]))"
  using cet1_fail [OF assms, of "missing_errors d required_fields"]
  by (auto simp: validate_prefix [OF assms(1,2)])

lemma validate_overflow:
  assumes "data_of x = Some d" and "list_all (\<lambda>kv. field_ok (snd kv)) d"
    and "list_all (amount_ok d) amount_codes"
    and "calculated d \<noteq> amount d ''100''" and "10 ^ max_str_digits \<le> \<bar>calculated d\<bar>"
  shows "validate_response x =
           Inr (make_verdict (missing_errors d required_fields)
                  (empty_warnings d required_fields @ type_warnings d
                     @ [''Calculation error: '' @ to_str_limit_message]))"
  by (simp add: validate_prefix [OF assms(1,2)] cet1_overflow [OF assms])

lemma populated_template_data:
  "populated_template x \<Longrightarrow> data_of x = Some d \<Longrightarrow> list_all (\<lambda>kv. field_ok (snd kv)) d"
  by (simp add: populated_template_def)

lemma count_missing:
  "distinct codes \<Longrightarrow>
     count_list (missing_errors d codes) (''Missing required field: '' @ c) =
       (if c \<in> set codes \<and> map_of d c = None then 1 else 0)"
  by (induction codes) (auto simp: missing_errors_def)

lemma count_empty:
  "distinct codes \<Longrightarrow>
     count_list (empty_warnings d codes) (''Empty value for field: '' @ c) =
       (if c \<in> set codes \<and> is_empty_field d c then 1 else 0)"
  by (induction codes) (auto simp: empty_warnings_def)

lemma missing_not_arithmetic: "''Missing required field: '' @ c \<notin> set (arithmetic_errors d)"
  by (simp add: arithmetic_errors_def mismatch_text_def negative_text_def)

lemma empty_not_type: "''Empty value for field: '' @ c \<notin> set (type_warnings d)"
  by (induction d) (auto simp: type_warnings_def type_warning_def Let_def)

lemma distinct_required: "distinct required_fields"
  by (simp add: required_fields_def)

lemma int_str_empty: "int_str [] \<noteq> Inr n"
  by (simp add: int_str_def strip_def)

lemma amount_of_value:
  assumes "field_value d c = Some v" and "truthy v" and "py_int v = Inr n"
  shows "amount_ok d c" and "amount d c = n"
  using assms
  by (auto simp: field_value_def amount_ok_def amount_def value_or_def
        split: option.splits pyval.splits)

lemma amount_of_text:
  assumes "field_value d c = Some (PStr s)" and "int_str s = Inr n"
  shows "amount_ok d c" and "amount d c = n"
proof -
  have "s \<noteq> []" using assms(2) int_str_empty by blast
  then have t: "truthy (PStr s)" by simp
  show "amount_ok d c" and "amount d c = n"
    using amount_of_value [OF assms(1) t] assms(2) by simp_all
qed

section \<open>What \<open>int\<close> makes of a text of the numeric pattern\<close>

lemma is_digit_not_space: "is_digit c \<Longrightarrow> \<not> is_space c"
  by (auto simp: is_digit_def is_space_def)

lemma list_all_last: "xs \<noteq> [] \<Longrightarrow> list_all P xs \<Longrightarrow> P (last xs)"
  using last_in_set [of xs] by (auto simp: list_all_iff)

lemma literal_all_digits:
  "list_all is_digit ds \<Longrightarrow> ds \<noteq> [] \<or> prev \<Longrightarrow>
     literal_digits ds prev acc = Some (foldl (\<lambda>a c. 10 * a + digit_val c) acc ds)"
  by (induction ds arbitrary: prev acc) auto

lemma strip_self:
  assumes "s \<noteq> []" and "\<not> is_space (hd s)" and "\<not> is_space (last s)"
  shows "strip s = s"
proof -
  have a: "dropWhile is_space s = s" using assms(1,2) by (cases s) auto
  have "rev s \<noteq> []" and "\<not> is_space (hd (rev s))"
    using assms(1,3) by (simp_all add: hd_rev)
  then have b: "dropWhile is_space (rev s) = rev s" by (cases "rev s") auto
  show ?thesis by (simp add: strip_def a b)
qed

lemma all_digits_run:
  "list_all is_digit ds \<Longrightarrow>
     takeWhile literal_char ds = ds \<and> dropWhile literal_char ds = [] \<and> filter is_digit ds = ds"
  by (induction ds) (auto simp: literal_char_def)

lemma int_str_digits:
  assumes st: "strip s = s"
    and body: "(if s \<noteq> [] \<and> (hd s = CHR ''-'' \<or> hd s = CHR ''+'') then tl s else s) = body"
    and ds: "list_all is_digit body" and ne: "body \<noteq> []"
  shows "int_str s =
     (if max_str_digits < length body
      then Inl (ValueError (from_str_limit_message (length body)))
      else Inr (if s \<noteq> [] \<and> hd s = CHR ''-''
                then - int (digits_value body) else int (digits_value body)))"
proof -
  from all_digits_run [OF ds] have run: "takeWhile literal_char body = body"
    and rest: "dropWhile literal_char body = []" and cnt: "filter is_digit body = body"
    by simp_all
  have lit: "literal_digits body False 0 = Some (digits_value body)"
    unfolding digits_value_def by (rule literal_all_digits) (use ds ne in simp_all)
  show ?thesis
    unfolding int_str_def Let_def st body run rest cnt lit
    by simp
qed

lemma numeric_syntax_strip:
  assumes "numeric_syntax s"
  shows "strip s = s"
    and "(if s \<noteq> [] \<and> (hd s = CHR ''-'' \<or> hd s = CHR ''+'') then tl s else s) = unsigned_part s"
    and "list_all is_digit (unsigned_part s)" and "unsigned_part s \<noteq> []"
proof -
  from assms show ds: "list_all is_digit (unsigned_part s)" and ne: "unsigned_part s \<noteq> []"
    by (simp_all add: numeric_syntax_def)
  from ne obtain c cs where s: "s = c # cs" by (cases s) (simp_all add: unsigned_part_def)
  have hd_ok: "c = CHR ''-'' \<or> is_digit c"
    using ds s by (auto simp: unsigned_part_def split: if_splits)
  then have h: "\<not> is_space (hd s)" and plus: "is_digit c \<Longrightarrow> c \<noteq> CHR ''-''"
    using s by (auto simp: is_space_def is_digit_def)
  have "last s = last (unsigned_part s)"
    using s ne by (auto simp: unsigned_part_def)
  moreover have "is_digit (last (unsigned_part s))" by (rule list_all_last [OF ne ds])
  ultimately have l: "\<not> is_space (last s)" by (simp add: is_digit_not_space)
  show "strip s = s" by (rule strip_self) (use s h l in simp_all)
  show "(if s \<noteq> [] \<and> (hd s = CHR ''-'' \<or> hd s = CHR ''+'') then tl s else s) = unsigned_part s"
    using s hd_ok by (auto simp: unsigned_part_def is_digit_def)
qed

lemma numeric_syntax_int:
  assumes "numeric_syntax s"
  shows "int_str s =
     (if max_str_digits < length (unsigned_part s)
      then Inl (ValueError (from_str_limit_message (length (unsigned_part s))))
      else Inr (int_value s))"
proof -
  have v: "(if s \<noteq> [] \<and> hd s = CHR ''-''
            then - int (digits_value (unsigned_part s)) else int (digits_value (unsigned_part s)))
           = int_value s"
    by (cases s) (simp_all add: int_value_def unsigned_part_def)
  show ?thesis
    unfolding int_str_digits [OF numeric_syntax_strip [OF assms]] v by (rule refl)
qed

lemma numeric_syntax_parsed:
  "numeric_syntax s \<Longrightarrow> int_str s = Inr n \<Longrightarrow> n = int_value s"
  by (simp add: numeric_syntax_int split: if_splits)

section \<open>The two copies of the method\<close>

lemma assistant_check_required_eq: "assistant_check_required = check_required"
proof (intro ext)
  fix x cs st
  show "assistant_check_required x cs st = check_required x cs st"
  proof (induction cs arbitrary: st)
    case Nil
    show ?case by (cases st) simp
  next
    case (Cons c cs)
    show ?case by (cases st) (simp add: Cons cong: sum.case_cong if_cong)
  qed
qed

lemma assistant_check_types_eq: "assistant_check_types = check_types"
proof (intro ext)
  fix items warns
  show "assistant_check_types items warns = check_types items warns"
  proof (induction items arbitrary: warns)
    case Nil
    show ?case by simp
  next
    case (Cons kv items)
    show ?case by (cases kv) (simp add: Cons cong: sum.case_cong if_cong)
  qed
qed

lemma assistant_sum_codes_eq: "assistant_sum_codes = sum_codes"
proof (intro ext)
  fix data cs acc
  show "assistant_sum_codes data cs acc = sum_codes data cs acc"
    by (induction cs arbitrary: acc) (simp_all cong: sum.case_cong if_cong)
qed

lemma assistant_cet1_calculation_eq: "assistant_cet1_calculation = cet1_calculation"
  unfolding assistant_cet1_calculation_def [abs_def] cet1_calculation_def [abs_def]
    assistant_sum_codes_eq assistant_mismatch_error_def [abs_def] mismatch_error_def [abs_def]
    assistant_negative_error_def [abs_def] negative_error_def [abs_def]
  by (rule refl)

text \<open>The definitions a concrete input is evaluated with.\<close>

lemmas eval_defs = text_field_def template_def populated_template_def required_fields_def
  missing_errors_def empty_warnings_def is_empty_field_def value_or_def type_warnings_def
  type_warning_def amount_ok_def amount_def calculated_def arithmetic_errors_def
  amount_codes_def make_verdict_def field_value_def
  re_match_numeric_def mismatch_error_def negative_error_def mismatch_text_def negative_text_def
  int_str_def strip_def is_space_def is_digit_def digit_val_def literal_char_def
  invalid_literal_message_def small_digits max_str_digits_pos
  format_comma_def small_int small_int_less comma_grouped_def
  group_digits.simps dec_digits.simps three_digits_def digit_char_def
  repr_str_def repr_char_def hex_char_def Let_def

lemmas syntax_defs = numeric_syntax_def unsigned_part_def int_value_def digits_value_def

lemma field_value_present: "field_value d c = Some v \<Longrightarrow> map_of d c \<noteq> None"
  by (auto simp: field_value_def split: option.splits)

lemma amount_of_numeric:
  assumes "field_value d c = Some (PStr s)" and "numeric_syntax s" and "amount_ok d c"
  shows "amount d c = int_value s"
proof -
  from assms(2) have "s \<noteq> []" by (auto simp: numeric_syntax_def unsigned_part_def)
  with assms(1,3) obtain n where n: "int_str s = Inr n"
    by (auto simp: field_value_def amount_ok_def value_or_def
          split: option.splits pyval.splits sum.splits)
  from amount_of_text(2) [OF assms(1) n] numeric_syntax_parsed [OF assms(2) n]
  show ?thesis by simp
qed

lemma missing_errors_none:
  "list_all (\<lambda>c. map_of d c \<noteq> None) codes \<Longrightarrow> missing_errors d codes = []"
  by (induction codes) (auto simp: missing_errors_def)

lemma amount_not_ok:
  assumes "field_value d c = Some v" and "truthy v" and "py_int v = Inl e"
  shows "\<not> amount_ok d c"
  using assms
  by (auto simp: field_value_def amount_ok_def value_or_def split: option.splits pyval.splits)

section \<open>Exceptions of the first two passes\<close>







section \<open>Replacing the value of one field\<close>

lemma list_all_update:
  "list_all (\<lambda>kv. P (snd kv)) d \<Longrightarrow> P v \<Longrightarrow> list_all (\<lambda>kv. P (snd kv)) (AList.update k v d)"
  by (induction d) auto

lemma value_or_update: "value_or (PDict (AList.update ''value'' v attrs)) dflt = v"
  by (simp add: value_or_def update_conv')

lemma field_ok_update: "scalar v \<Longrightarrow> field_ok (PDict (AList.update ''value'' v attrs))"
  by (simp add: update_conv')

lemma type_warnings_update:
  "type_warning (c, f) = type_warning (c, g) \<Longrightarrow>
     type_warnings (AList.update c f d) = type_warnings (AList.update c g d)"
  by (induction d) (auto simp: type_warnings_def)

lemma sum_codes_agree:
  assumes "list_all (\<lambda>kv. field_ok (snd kv)) d" and "list_all (\<lambda>kv. field_ok (snd kv)) d'"
    and "\<And>k. amount_ok d k = amount_ok d' k" and "\<And>k. amount d k = amount d' k"
    and "\<And>k. \<not> amount_ok d k \<Longrightarrow> map_of d k = map_of d' k"
  shows "sum_codes (PDict d) cs acc = sum_codes (PDict d') cs acc"
proof (induction cs arbitrary: acc)
  case Nil
  show ?case by simp
next
  case (Cons k cs)
  show ?case
    using assms(3) [of k] assms(4) [of k] assms(5) [of k] Cons
    by (simp add: sum_codes_step [OF assms(1)] sum_codes_step [OF assms(2)]
          del: sum_codes.simps)
qed

lemma remove1_filtered:
  assumes "inj f"
  shows "distinct codes \<Longrightarrow> (\<And>k. k \<noteq> c \<Longrightarrow> Q k = P k) \<Longrightarrow> \<not> Q c \<Longrightarrow> P c \<Longrightarrow>
     map f (filter Q codes) = remove1 (f c) (map f (filter P codes))"
proof (induction codes)
  case Nil
  show ?case by simp
next
  case (Cons k ks)
  show ?case
  proof (cases "k = c")
    case True
    with Cons.prems(1) have notin: "c \<notin> set ks" by simp
    have same: "Q x = P x" if "x \<in> set ks" for x
    proof -
      from that notin have "x \<noteq> c" by auto
      then show ?thesis by (rule Cons.prems(2))
    qed
    have "filter Q ks = filter P ks"
      by (rule filter_cong) (simp_all add: same)
    with True Cons.prems(3,4) show ?thesis by simp
  next
    case False
    then have "f k \<noteq> f c" using assms by (simp add: inj_eq)
    with False Cons show ?thesis by auto
  qed
qed

lemma inj_empty_message: "inj (\<lambda>c. ''Empty value for field: '' @ c)"
  by (rule injI) simp

section \<open>A text of as many nines as the limit allows\<close>

lemma replicate_pos: "0 < n \<Longrightarrow> replicate n x = x # replicate (n - 1) x"
  by (cases n) simp_all

lemma nines_Cons: "nines = CHR ''9'' # replicate (max_str_digits - 1) (CHR ''9'')"
  unfolding nines_def by (rule replicate_pos) (rule max_str_digits_pos)

lemma nines_not_empty: "nines \<noteq> []"
  by (simp add: nines_Cons)

lemma length_nines: "length nines = max_str_digits"
  by (simp add: nines_def)

lemma numeric_syntax_nines: "numeric_syntax nines"
  by (simp add: numeric_syntax_def unsigned_part_def nines_Cons is_digit_def list_all_iff)

lemma unsigned_part_nines: "unsigned_part nines = nines"
  by (simp add: unsigned_part_def nines_Cons)

lemma foldl_nines:
  "foldl (\<lambda>a c. 10 * a + digit_val c) acc (replicate n (CHR ''9'')) + 1 = (acc + 1) * 10 ^ n"
  by (induction n arbitrary: acc) (simp_all add: digit_val_def algebra_simps)

lemma int_value_nines: "int_value nines = 10 ^ max_str_digits - 1"
proof -
  have "digits_value nines + 1 = 10 ^ max_str_digits"
    using foldl_nines [of 0 max_str_digits] by (simp add: digits_value_def nines_def)
  then have "int (digits_value nines + 1) = int (10 ^ max_str_digits)"
    by (simp only:)
  then have "int (digits_value nines) + 1 = 10 ^ max_str_digits"
    by simp
  moreover have "int_value nines = int (digits_value nines)"
    by (simp add: int_value_def nines_Cons)
  ultimately show ?thesis by simp
qed

lemma int_str_nines: "int_str nines = Inr (10 ^ max_str_digits - 1)"
  by (simp add: numeric_syntax_int [OF numeric_syntax_nines] unsigned_part_nines
        int_value_nines length_nines)

lemma re_match_nines: "re_match_numeric nines"
  by (simp add: re_match_numeric_def nines_Cons is_digit_def)

text \<open>
  The verdict when field 010 holds the nines, field 020 holds 1 and the reported total is
  some small number: the calculated total cannot be printed.
\<close>

lemma overflow_verdict:
  assumes d: "d = [(''010'', text_field nines), (''020'', text_field ''1''),
                   (''030'', text_field ''0''), (''040'', text_field ''0''),
                   (''070'', text_field ''0''), (''100'', text_field s)]"
    and s: "int_str s = Inr r" and re: "re_match_numeric s" and small: "r < 10 ^ 18"
  shows "validate_response (template d) =
           Inr \<lparr>errors = [], warnings = [''Calculation error: '' @ to_str_limit_message],
                is_valid = True\<rparr>"
proof -
  have x: "data_of (template d) = Some d" by (simp add: template_def)
  have ok: "list_all (\<lambda>kv. field_ok (snd kv)) d" by (simp add: d text_field_def)
  have one: "int_str ''1'' = Inr 1"
    by (simp add: int_str_def strip_def is_space_def is_digit_def digit_val_def
          literal_char_def small_digits max_str_digits_pos Let_def)
  have fv: "field_value d ''010'' = Some (PStr nines)" "field_value d ''020'' = Some (PStr ''1'')"
    "field_value d ''030'' = Some (PStr ''0'')" "field_value d ''040'' = Some (PStr ''0'')"
    "field_value d ''070'' = Some (PStr ''0'')" "field_value d ''100'' = Some (PStr s)"
    by (simp_all add: d field_value_def text_field_def)
  note a = amount_of_text [OF fv(1) int_str_nines] amount_of_text [OF fv(2) one]
    amount_of_text [OF fv(3) int_str_zero] amount_of_text [OF fv(4) int_str_zero]
    amount_of_text [OF fv(5) int_str_zero] amount_of_text [OF fv(6) s]
  have all: "list_all (amount_ok d) amount_codes"
    by (simp add: amount_codes_def a)
  have calc: "calculated d = 10 ^ max_str_digits"
    by (simp add: calculated_def a)
  have "r < 10 ^ max_str_digits" by (rule small_int_less [OF small])
  then have ne: "calculated d \<noteq> amount d ''100''" by (simp add: calc a)
  have over: "10 ^ max_str_digits \<le> \<bar>calculated d\<bar>" by (simp add: calc)
  have "s \<noteq> []" using s int_str_empty by blast
  then have empty: "empty_warnings d required_fields = []"
    by (simp add: empty_warnings_def is_empty_field_def required_fields_def d text_field_def
          value_or_def nines_not_empty)
  have missing: "missing_errors d required_fields = []"
    by (simp add: missing_errors_def required_fields_def d)
  have re1: "re_match_numeric ''1''" and re0: "re_match_numeric ''0''"
    by (simp_all add: re_match_numeric_def is_digit_def)
  have types: "type_warnings d = []"
    by (simp add: type_warnings_def type_warning_def d text_field_def value_or_def
          re_match_nines re1 re0 re)
  show ?thesis
    by (simp add: validate_overflow [OF x ok all ne over] missing empty types make_verdict_def)
qed
section \<open>Parse failures in the arithmetic block\<close>

text \<open>
  Claim C1, as stated, fails. With \<open>abc\<close> in field 010, 1 in fields 020 and 030 and a
  reported total of 999, substituting 0 for the unparsable field would give 2 against
  999 and so a mismatch error. The code instead leaves the \<open>try\<close> block at the first
  \<open>ValueError\<close>: no mismatch is reported, a warning \<open>Calculation error\<close> is added, and
  the verdict is valid.
\<close>

theorem parse_failure_hides_mismatch:
  "populated_template (template non_numeric_data)
   \<and> field_value non_numeric_data ''010'' = Some (PStr ''abc'')
   \<and> map_of non_numeric_data ''040'' = None \<and> map_of non_numeric_data ''070'' = None
   \<and> field_value non_numeric_data ''020'' = Some (PStr ''1'') \<and> int_str ''1'' = Inr 1
   \<and> field_value non_numeric_data ''030'' = Some (PStr ''1'')
   \<and> field_value non_numeric_data ''100'' = Some (PStr ''999'') \<and> int_str ''999'' = Inr 999
   \<and> (0::int) + 1 + 1 + 0 - 0 \<noteq> 999
   \<and> validate_response (template non_numeric_data) =
       Inr \<lparr>errors = [],
            warnings = [''Non-numeric value in field 010: abc'',
                        ''Calculation error: invalid literal for int() with base 10: ''
                          @ [CHR 0x27] @ ''abc'' @ [CHR 0x27]],
            is_valid = True\<rparr>"
  by (simp add: validate_response_def cet1_calculation_def non_numeric_data_def eval_defs)

text \<open>
  Claim C1, amended. On every populated template in which one of the fields 010, 020,
  030, 040, 070 is present with a non-empty value that \<open>int\<close> rejects, the failure is
  caught inside \<open>validate_response\<close> and a verdict is returned; the arithmetic block is
  abandoned as a whole, so \<open>errors\<close> holds the missing-field entries of pass 1 and
  nothing else, the last warning is \<open>Calculation error: message\<close>, and \<open>is_valid\<close> is
  true exactly when no required field is missing.
\<close>

theorem parse_failure_abandons_arithmetic:
  assumes "populated_template x" and "data_of x = Some d"
    and "c \<in> set [''010'', ''020'', ''030'', ''040'', ''070'']"
    and "field_value d c = Some v" and "truthy v" and "py_int v = Inl e"
  shows "\<exists>vd ws m. validate_response x = Inr vd
     \<and> errors vd =
         map (\<lambda>c. ''Missing required field: '' @ c)
           (filter (\<lambda>c. map_of d c = None) required_fields)
     \<and> warnings vd = ws @ [''Calculation error: '' @ m]
     \<and> is_valid vd = list_all (\<lambda>c. map_of d c \<noteq> None) required_fields"
proof -
  have ok: "list_all (\<lambda>kv. field_ok (snd kv)) d"
    by (rule populated_template_data [OF assms(1,2)])
  have "\<not> amount_ok d c" by (rule amount_not_ok [OF assms(4,5,6)])
  moreover have "c \<in> set amount_codes" using assms(3) by (auto simp: amount_codes_def)
  ultimately have bad: "\<not> list_all (amount_ok d) amount_codes"
    by (auto simp: list_all_iff)
  then have bad': "\<not> arithmetic_ok d" by (simp add: arithmetic_ok_def)
  from validate_fail [OF assms(2) ok bad'] obtain m where
    v: "validate_response x =
          Inr (make_verdict (missing_errors d required_fields)
                 ((empty_warnings d required_fields @ type_warnings d)
                    @ [''Calculation error: '' @ m]))"
    by auto
  have iv: "(missing_errors d required_fields = []) =
              list_all (\<lambda>c. map_of d c \<noteq> None) required_fields"
    by (simp add: missing_errors_def filter_empty_conv list_all_iff)
  define vd where
    "vd = make_verdict (missing_errors d required_fields)
            ((empty_warnings d required_fields @ type_warnings d)
               @ [''Calculation error: '' @ m])"
  have 1: "validate_response x = Inr vd" by (simp only: v vd_def)
  have 2: "errors vd =
         map (\<lambda>c. ''Missing required field: '' @ c)
           (filter (\<lambda>c. map_of d c = None) required_fields)"
    by (simp add: vd_def make_verdict_def missing_errors_def)
  have 3: "warnings vd =
         (empty_warnings d required_fields @ type_warnings d) @ [''Calculation error: '' @ m]"
    by (simp add: vd_def make_verdict_def)
  have 4: "is_valid vd = list_all (\<lambda>c. map_of d c \<noteq> None) required_fields"
    using iv by (simp add: vd_def make_verdict_def)
  from 1 2 3 4 show ?thesis by blast
qed

theorem parse_failure_abandons_arithmetic_witness:
  "populated_template (template non_numeric_data)
   \<and> data_of (template non_numeric_data) = Some non_numeric_data
   \<and> ''010'' \<in> set [''010'', ''020'', ''030'', ''040'', ''070'']
   \<and> field_value non_numeric_data ''010'' = Some (PStr ''abc'')
   \<and> truthy (PStr ''abc'')
   \<and> py_int (PStr ''abc'') =
        Inl (ValueError (''invalid literal for int() with base 10: '' @ [CHR 0x27] @ ''abc'' @ [CHR 0x27]))
   \<and> (\<exists>vd ws m. validate_response (template non_numeric_data) = Inr vd
        \<and> errors vd = []
        \<and> warnings vd = ws @ [''Calculation error: '' @ m]
        \<and> is_valid vd)"
proof -
  have p: "populated_template (template non_numeric_data)"
    and d: "data_of (template non_numeric_data) = Some non_numeric_data"
    by (simp_all add: non_numeric_data_def eval_defs)
  have c: "''010'' \<in> set [''010'', ''020'', ''030'', ''040'', ''070'']" by simp
  have f: "field_value non_numeric_data ''010'' = Some (PStr ''abc'')"
    by (simp add: non_numeric_data_def field_value_def text_field_def)
  have t: "truthy (PStr ''abc'')" by simp
  have i: "py_int (PStr ''abc'') =
        Inl (ValueError (''invalid literal for int() with base 10: '' @ [CHR 0x27] @ ''abc'' @ [CHR 0x27]))"
    by (simp add: eval_defs)
  have m: "map (\<lambda>c. ''Missing required field: '' @ c)
             (filter (\<lambda>c. map_of non_numeric_data c = None) required_fields) = []"
    and a: "list_all (\<lambda>c. map_of non_numeric_data c \<noteq> None) required_fields"
    by (simp_all add: non_numeric_data_def required_fields_def)
  from parse_failure_abandons_arithmetic [OF p d c f t i]
  have "\<exists>vd ws m. validate_response (template non_numeric_data) = Inr vd
        \<and> errors vd = []
        \<and> warnings vd = ws @ [''Calculation error: '' @ m]
        \<and> is_valid vd"
    unfolding m using a by simp
  with p d c f t i show ?thesis by blast
qed

section \<open>Reconciled templates\<close>

text \<open>
  Claim C2, as stated, fails: a total that equals the signed sum of its components but is
  negative still gets the entry \<open>CET1 is negative\<close> from the check on the reported
  value. With components 0, deduction 10 and a reported total of -10 every field is a
  valid integer text and the total reconciles, yet the verdict is not valid.
\<close>

theorem reconciled_negative_total_invalid:
  "populated_template (template negative_data)
   \<and> data_of (template negative_data) = Some negative_data
   \<and> field_value negative_data ''010'' = Some (PStr ''0'')
   \<and> field_value negative_data ''020'' = Some (PStr ''0'')
   \<and> field_value negative_data ''030'' = Some (PStr ''0'')
   \<and> field_value negative_data ''040'' = Some (PStr ''0'')
   \<and> field_value negative_data ''070'' = Some (PStr ''10'')
   \<and> field_value negative_data ''100'' = Some (PStr ''-10'')
   \<and> numeric_syntax ''0'' \<and> numeric_syntax ''10'' \<and> numeric_syntax ''-10''
   \<and> int_value ''-10'' = int_value ''0'' + int_value ''0'' + int_value ''0'' + int_value ''0''
        - int_value ''10''
   \<and> validate_response (template negative_data) =
        Inr \<lparr>errors = [''CET1 is negative: -10''], warnings = [], is_valid = False\<rparr>"
  by (simp add: validate_response_def cet1_calculation_def negative_data_def eval_defs syntax_defs)

text \<open>
  Claim C2, amended. On every populated template in which the fields 010, 020, 030, 040,
  070 and 100 are present with texts of the numeric pattern (an optional minus sign and
  digits only), where the value of field 100 equals the sum of the components minus the
  deduction and is not negative, the verdict has no errors and \<open>is_valid\<close> is true.
\<close>

theorem reconciled_nonnegative_template_valid:
  assumes "populated_template x" and "data_of x = Some d"
    and "field_value d ''010'' = Some (PStr s1)" and "numeric_syntax s1"
    and "field_value d ''020'' = Some (PStr s2)" and "numeric_syntax s2"
    and "field_value d ''030'' = Some (PStr s3)" and "numeric_syntax s3"
    and "field_value d ''040'' = Some (PStr s4)" and "numeric_syntax s4"
    and "field_value d ''070'' = Some (PStr s5)" and "numeric_syntax s5"
    and "field_value d ''100'' = Some (PStr s6)" and "numeric_syntax s6"
    and "int_value s6 = int_value s1 + int_value s2 + int_value s3 + int_value s4 - int_value s5"
    and "0 \<le> int_value s6"
  shows "\<exists>v. validate_response x = Inr v \<and> errors v = [] \<and> is_valid v"
proof -
  have ok: "list_all (\<lambda>kv. field_ok (snd kv)) d"
    by (rule populated_template_data [OF assms(1,2)])
  have present: "list_all (\<lambda>c. map_of d c \<noteq> None) required_fields"
    using field_value_present [OF assms(3)] field_value_present [OF assms(5)]
      field_value_present [OF assms(7)] field_value_present [OF assms(13)]
    by (simp add: required_fields_def)
  show ?thesis
  proof (cases "arithmetic_ok d")
    case True
    then have a: "amount_ok d ''010''" "amount_ok d ''020''" "amount_ok d ''030''"
      "amount_ok d ''040''" "amount_ok d ''070''" "amount_ok d ''100''"
      by (simp_all add: arithmetic_ok_def amount_codes_def)
    have n: "amount d ''010'' = int_value s1" "amount d ''020'' = int_value s2"
      "amount d ''030'' = int_value s3" "amount d ''040'' = int_value s4"
      "amount d ''070'' = int_value s5" "amount d ''100'' = int_value s6"
      by (rule amount_of_numeric [OF assms(3,4) a(1)],
          rule amount_of_numeric [OF assms(5,6) a(2)],
          rule amount_of_numeric [OF assms(7,8) a(3)],
          rule amount_of_numeric [OF assms(9,10) a(4)],
          rule amount_of_numeric [OF assms(11,12) a(5)],
          rule amount_of_numeric [OF assms(13,14) a(6)])
    have "arithmetic_errors d = []"
      using assms(15,16) by (simp add: arithmetic_errors_def calculated_def n)
    then show ?thesis
      by (simp add: validate_ok [OF assms(2) ok True] missing_errors_none [OF present]
            make_verdict_def)
  next
    case False
    from validate_fail [OF assms(2) ok False] show ?thesis
      by (auto simp: missing_errors_none [OF present] make_verdict_def)
  qed
qed

theorem reconciled_nonnegative_template_valid_witness:
  "populated_template (template reconciled_data)
   \<and> data_of (template reconciled_data) = Some reconciled_data
   \<and> field_value reconciled_data ''010'' = Some (PStr ''150000000'')
   \<and> numeric_syntax ''150000000''
   \<and> field_value reconciled_data ''020'' = Some (PStr ''75000000'')
   \<and> numeric_syntax ''75000000''
   \<and> field_value reconciled_data ''030'' = Some (PStr ''300000000'')
   \<and> numeric_syntax ''300000000''
   \<and> field_value reconciled_data ''040'' = Some (PStr ''25000000'')
   \<and> numeric_syntax ''25000000''
   \<and> field_value reconciled_data ''070'' = Some (PStr ''45000000'')
   \<and> numeric_syntax ''45000000''
   \<and> field_value reconciled_data ''100'' = Some (PStr ''505000000'')
   \<and> numeric_syntax ''505000000''
   \<and> int_value ''505000000'' = int_value ''150000000'' + int_value ''75000000''
        + int_value ''300000000'' + int_value ''25000000'' - int_value ''45000000''
   \<and> 0 \<le> int_value ''505000000''
   \<and> (\<exists>v. validate_response (template reconciled_data) = Inr v \<and> errors v = [] \<and> is_valid v)"
proof -
  have p: "populated_template (template reconciled_data)"
    and d: "data_of (template reconciled_data) = Some reconciled_data"
    by (simp_all add: reconciled_data_def eval_defs)
  have f: "field_value reconciled_data ''010'' = Some (PStr ''150000000'')"
    "field_value reconciled_data ''020'' = Some (PStr ''75000000'')"
    "field_value reconciled_data ''030'' = Some (PStr ''300000000'')"
    "field_value reconciled_data ''040'' = Some (PStr ''25000000'')"
    "field_value reconciled_data ''070'' = Some (PStr ''45000000'')"
    "field_value reconciled_data ''100'' = Some (PStr ''505000000'')"
    by (simp_all add: reconciled_data_def field_value_def text_field_def)
  have n: "numeric_syntax ''150000000''" "numeric_syntax ''75000000''"
    "numeric_syntax ''300000000''" "numeric_syntax ''25000000''"
    "numeric_syntax ''45000000''" "numeric_syntax ''505000000''"
    by (simp_all add: syntax_defs is_digit_def)
  have s: "int_value ''505000000'' = int_value ''150000000'' + int_value ''75000000''
        + int_value ''300000000'' + int_value ''25000000'' - int_value ''45000000''"
    and z: "0 \<le> int_value ''505000000''"
    by (simp_all add: syntax_defs digit_val_def)
  from reconciled_nonnegative_template_valid
    [OF p d f(1) n(1) f(2) n(2) f(3) n(3) f(4) n(4) f(5) n(5) f(6) n(6) s z]
  show ?thesis using p d f n s z by blast
qed

section \<open>Inputs of the wrong shape\<close>




section \<open>The mismatch error\<close>




section \<open>Required fields\<close>

text \<open>
  Claim C5. On every populated template: a required code (010, 020, 030, 100) that is
  absent from the data mapping has exactly one entry \<open>Missing required field: code\<close> in
  \<open>errors\<close>; a code that is not required, or that is present, has none; and a required
  code that is present with an empty (falsy) value has exactly one warning
  \<open>Empty value for field: code\<close> and no missing-field error.
\<close>

theorem required_fields_reported:
  assumes "populated_template x" and "data_of x = Some d"
  shows "\<exists>v. validate_response x = Inr v
     \<and> (\<forall>c. c \<in> set required_fields \<and> map_of d c = None \<longrightarrow>
            count_list (errors v) (''Missing required field: '' @ c) = 1)
     \<and> (\<forall>c. c \<notin> set required_fields \<or> map_of d c \<noteq> None \<longrightarrow>
            ''Missing required field: '' @ c \<notin> set (errors v))
     \<and> (\<forall>c. c \<in> set required_fields \<and> is_empty_field d c \<longrightarrow>
            count_list (warnings v) (''Empty value for field: '' @ c) = 1
            \<and> ''Missing required field: '' @ c \<notin> set (errors v))"
proof -
  define M where "M = (\<lambda>c. ''Missing required field: '' @ c)"
  define E where "E = (\<lambda>c. ''Empty value for field: '' @ c)"
  from assms have ok: "list_all (\<lambda>kv. field_ok (snd kv)) d"
    by (simp add: populated_template_def)
  have absent: "\<not> is_empty_field d c" if "map_of d c = None" for c
    using that by (simp add: is_empty_field_def)
  have miss: "count_list (missing_errors d required_fields) (M c)
              = (if c \<in> set required_fields \<and> map_of d c = None then 1 else 0)" for c
    unfolding M_def by (rule count_missing [OF distinct_required])
  have emp: "count_list (empty_warnings d required_fields) (E c)
              = (if c \<in> set required_fields \<and> is_empty_field d c then 1 else 0)" for c
    unfolding E_def by (rule count_empty [OF distinct_required])
  have arith: "count_list (arithmetic_errors d) (M c) = 0" for c
    unfolding M_def by (rule count_notin) (rule missing_not_arithmetic)
  have tyw: "count_list (type_warnings d) (E c) = 0" for c
    unfolding E_def by (rule count_notin) (rule empty_not_type)
  define C where "C = (\<lambda>m. ''Calculation error: '' @ m)"
  have calc: "count_list [C m] (E c) = 0" for m c
    unfolding E_def C_def by simp
  have main: "\<exists>v. validate_response x = Inr v
     \<and> (\<forall>c. c \<in> set required_fields \<and> map_of d c = None \<longrightarrow> count_list (errors v) (M c) = 1)
     \<and> (\<forall>c. c \<notin> set required_fields \<or> map_of d c \<noteq> None \<longrightarrow> count_list (errors v) (M c) = 0)
     \<and> (\<forall>c. c \<in> set required_fields \<and> is_empty_field d c \<longrightarrow>
            count_list (warnings v) (E c) = 1 \<and> count_list (errors v) (M c) = 0)"
  proof (cases "arithmetic_ok d")
    case True
    have v: "validate_response x =
               Inr (make_verdict (missing_errors d required_fields @ arithmetic_errors d)
                      (empty_warnings d required_fields @ type_warnings d))"
      by (rule validate_ok [OF assms(2) ok True])
    show ?thesis
      unfolding v
      by (auto simp: make_verdict_def miss emp arith tyw absent)
  next
    case False
    from validate_fail [OF assms(2) ok False] obtain m where
      v: "validate_response x =
            Inr (make_verdict (missing_errors d required_fields)
                   (empty_warnings d required_fields @ type_warnings d @ [C m]))"
      unfolding C_def by blast
    show ?thesis
      unfolding v
      by (auto simp: make_verdict_def miss emp tyw calc absent simp del: count_list.simps)
  qed
  then show ?thesis
    unfolding M_def E_def count_list_0_iff .
qed

theorem required_fields_reported_witness:
  "populated_template (template incomplete_data)
   \<and> data_of (template incomplete_data) = Some incomplete_data
   \<and> (\<exists>v. validate_response (template incomplete_data) = Inr v
        \<and> count_list (errors v) ''Missing required field: 030'' = 1
        \<and> ''Missing required field: 040'' \<notin> set (errors v)
        \<and> ''Missing required field: 020'' \<notin> set (errors v)
        \<and> count_list (warnings v) ''Empty value for field: 010'' = 1
        \<and> ''Missing required field: 010'' \<notin> set (errors v))"
proof -
  have p: "populated_template (template incomplete_data)"
    by (simp add: incomplete_data_def eval_defs)
  have d: "data_of (template incomplete_data) = Some incomplete_data"
    by (simp add: template_def)
  have a: "''030'' \<in> set required_fields \<and> map_of incomplete_data ''030'' = None"
    by (simp add: required_fields_def incomplete_data_def)
  have b: "''040'' \<notin> set required_fields \<or> map_of incomplete_data ''040'' \<noteq> None"
    by (simp add: required_fields_def)
  have b': "''020'' \<notin> set required_fields \<or> map_of incomplete_data ''020'' \<noteq> None"
    by (simp add: incomplete_data_def)
  have c: "''010'' \<in> set required_fields \<and> is_empty_field incomplete_data ''010''"
    by (simp add: incomplete_data_def eval_defs)
  from required_fields_reported [OF p d] obtain v where
    v: "validate_response (template incomplete_data) = Inr v"
    and m: "\<forall>c. c \<in> set required_fields \<and> map_of incomplete_data c = None \<longrightarrow>
              count_list (errors v) (''Missing required field: '' @ c) = 1"
    and n: "\<forall>c. c \<notin> set required_fields \<or> map_of incomplete_data c \<noteq> None \<longrightarrow>
              ''Missing required field: '' @ c \<notin> set (errors v)"
    and e: "\<forall>c. c \<in> set required_fields \<and> is_empty_field incomplete_data c \<longrightarrow>
              count_list (warnings v) (''Empty value for field: '' @ c) = 1
              \<and> ''Missing required field: '' @ c \<notin> set (errors v)"
    by blast
  from m a have 1: "count_list (errors v) (''Missing required field: '' @ ''030'') = 1" by blast
  from n b have 2: "''Missing required field: '' @ ''040'' \<notin> set (errors v)" by blast
  from n b' have 3: "''Missing required field: '' @ ''020'' \<notin> set (errors v)" by blast
  from e c have 4: "count_list (warnings v) (''Empty value for field: '' @ ''010'') = 1
      \<and> ''Missing required field: '' @ ''010'' \<notin> set (errors v)" by blast
  from 1 2 3 4 have "count_list (errors v) ''Missing required field: 030'' = 1
        \<and> ''Missing required field: 040'' \<notin> set (errors v)
        \<and> ''Missing required field: 020'' \<notin> set (errors v)
        \<and> count_list (warnings v) ''Empty value for field: 010'' = 1
        \<and> ''Missing required field: 010'' \<notin> set (errors v)"
    by simp
  with p d v show ?thesis by blast
qed

section \<open>The validity flag\<close>

text \<open>
  Claim C6. Whenever \<open>validate_response\<close> returns a verdict, \<open>is_valid\<close> is true exactly
  when \<open>errors\<close> is empty; on every populated template it does return one; and the
  flag is computed from the errors alone, whatever the warnings are.
\<close>

theorem is_valid_iff_no_errors:
  "(populated_template x \<longrightarrow> (\<exists>v. validate_response x = Inr v))
   \<and> (\<forall>v. validate_response x = Inr v \<longrightarrow> is_valid v = (errors v = []))
   \<and> (\<forall>errs w w'. is_valid (make_verdict errs w) = is_valid (make_verdict errs w'))"
proof (intro conjI impI allI)
  assume "populated_template x"
  then obtain d where d: "data_of x = Some d" "list_all (\<lambda>kv. field_ok (snd kv)) d"
    using populated_templateD by blast
  show "\<exists>v. validate_response x = Inr v"
  proof (cases "arithmetic_ok d")
    case True
    then show ?thesis using validate_ok [OF d] by simp
  next
    case False
    then show ?thesis using validate_fail [OF d] by blast
  qed
next
  fix v assume "validate_response x = Inr v"
  then show "is_valid v = (errors v = [])"
    by (auto simp: validate_response_def make_verdict_def
          split: sum.splits pyexn.splits prod.splits option.splits)
next
  fix errs w w'
  show "is_valid (make_verdict errs w) = is_valid (make_verdict errs w')"
    by (simp add: make_verdict_def)
qed

theorem is_valid_iff_no_errors_witness:
  "populated_template (template mismatch_data)
   \<and> (\<exists>v. validate_response (template mismatch_data) = Inr v
          \<and> is_valid v = (errors v = []))"
proof -
  have p: "populated_template (template mismatch_data)"
    by (simp add: mismatch_data_def eval_defs)
  from is_valid_iff_no_errors [of "template mismatch_data"] p
  show ?thesis by blast
qed

section \<open>The negative total\<close>

text \<open>
  Claim C7, as stated, fails. The check on the reported total stands inside the same
  \<open>try\<close> block as the sums and the mismatch message. With \<open>abc\<close> in field 010 and a
  reported total of -10 the block is left before the check. The same happens when every
  field parses but the calculated total cannot be printed: as many nines as the limit
  of digits allows in field 010, 1 in field 020 and a reported total of -10. In both
  cases the verdict has no error at all.
\<close>

theorem negative_total_unreported:
  "populated_template (template negative_unparsed_data)
   \<and> field_value negative_unparsed_data ''100'' = Some (PStr ''-10'')
   \<and> int_str ''-10'' = Inr (- 10)
   \<and> validate_response (template negative_unparsed_data) =
       Inr \<lparr>errors = [],
            warnings = [''Non-numeric value in field 010: abc'',
                        ''Calculation error: invalid literal for int() with base 10: ''
                          @ [CHR 0x27] @ ''abc'' @ [CHR 0x27]],
            is_valid = True\<rparr>
   \<and> populated_template (template negative_overflow_data)
   \<and> field_value negative_overflow_data ''010'' = Some (PStr nines)
   \<and> int_str nines = Inr (10 ^ max_str_digits - 1)
   \<and> field_value negative_overflow_data ''020'' = Some (PStr ''1'') \<and> int_str ''1'' = Inr 1
   \<and> field_value negative_overflow_data ''030'' = Some (PStr ''0'') \<and> int_str ''0'' = Inr 0
   \<and> field_value negative_overflow_data ''040'' = Some (PStr ''0'')
   \<and> field_value negative_overflow_data ''070'' = Some (PStr ''0'')
   \<and> field_value negative_overflow_data ''100'' = Some (PStr ''-10'')
   \<and> validate_response (template negative_overflow_data) =
       Inr \<lparr>errors = [],
            warnings = [''Calculation error: Exceeds the limit (4300 digits) for integer string conversion; use sys.set_int_max_str_digits() to increase the limit''],
            is_valid = True\<rparr>"
proof -
  have a: "populated_template (template negative_unparsed_data)
   \<and> field_value negative_unparsed_data ''100'' = Some (PStr ''-10'')
   \<and> int_str ''-10'' = Inr (- 10)
   \<and> validate_response (template negative_unparsed_data) =
       Inr \<lparr>errors = [],
            warnings = [''Non-numeric value in field 010: abc'',
                        ''Calculation error: invalid literal for int() with base 10: ''
                          @ [CHR 0x27] @ ''abc'' @ [CHR 0x27]],
            is_valid = True\<rparr>"
    by (simp add: validate_response_def cet1_calculation_def negative_unparsed_data_def eval_defs)
  have p: "populated_template (template negative_overflow_data)"
    by (simp add: populated_template_def template_def negative_overflow_data_def text_field_def)
  have fv: "field_value negative_overflow_data ''010'' = Some (PStr nines)"
    "field_value negative_overflow_data ''020'' = Some (PStr ''1'')"
    "field_value negative_overflow_data ''030'' = Some (PStr ''0'')"
    "field_value negative_overflow_data ''040'' = Some (PStr ''0'')"
    "field_value negative_overflow_data ''070'' = Some (PStr ''0'')"
    "field_value negative_overflow_data ''100'' = Some (PStr ''-10'')"
    by (simp_all add: negative_overflow_data_def field_value_def text_field_def)
  have i: "int_str ''1'' = Inr 1" "int_str ''0'' = Inr 0" "int_str ''-10'' = Inr (- 10)"
    by (simp_all add: eval_defs)
  have re: "re_match_numeric ''-10''" by (simp add: re_match_numeric_def is_digit_def)
  have v: "validate_response (template negative_overflow_data) =
       Inr \<lparr>errors = [],
            warnings = [''Calculation error: Exceeds the limit (4300 digits) for integer string conversion; use sys.set_int_max_str_digits() to increase the limit''],
            is_valid = True\<rparr>"
    using overflow_verdict [OF negative_overflow_data_def i(3) re]
    by (simp add: to_str_limit_message_def)
  from a p fv int_str_nines i v show ?thesis by simp
qed

text \<open>
  Claim C7, amended. On every populated template whose field 100 has a value that
  parses to a negative integer, whose fields 010, 020, 030, 040, 070 are each absent,
  empty or parseable, and whose calculated total (components minus deduction) has no
  more digits than the interpreter's limit for converting an int to text (4300),
  \<open>errors\<close> holds the entry \<open>CET1 is negative: r\<close> with the value grouped by commas, and
  \<open>is_valid\<close> is false. For the value -10 the entry is \<open>CET1 is negative: -10\<close>: alone
  when the components match (nothing added, 10 deducted), after the mismatch entry when
  they do not.
\<close>

theorem negative_total_reported:
  "(populated_template x \<and> data_of x = Some d
      \<and> field_value d ''100'' = Some v \<and> truthy v \<and> py_int v = Inr r \<and> r < 0
      \<and> list_all (amount_ok d) [''010'', ''020'', ''030'', ''040'', ''070'']
      \<and> \<bar>calculated d\<bar> < 10 ^ max_str_digits
    \<longrightarrow> (\<exists>vd. validate_response x = Inr vd
          \<and> ''CET1 is negative: '' @ comma_grouped r \<in> set (errors vd)
          \<and> \<not> is_valid vd))
   \<and> validate_response (template negative_data) =
       Inr \<lparr>errors = [''CET1 is negative: -10''], warnings = [], is_valid = False\<rparr>
   \<and> validate_response (template negative_mismatch_data) =
       Inr \<lparr>errors = [''CET1 calculation mismatch: Calculated 5 vs Reported -10'',
                      ''CET1 is negative: -10''],
            warnings = [], is_valid = False\<rparr>"
proof (intro conjI impI)
  assume h: "populated_template x \<and> data_of x = Some d
      \<and> field_value d ''100'' = Some v \<and> truthy v \<and> py_int v = Inr r \<and> r < 0
      \<and> list_all (amount_ok d) [''010'', ''020'', ''030'', ''040'', ''070'']
      \<and> \<bar>calculated d\<bar> < 10 ^ max_str_digits"
  then have d: "data_of x = Some d" and ok: "list_all (\<lambda>kv. field_ok (snd kv)) d"
    by (auto dest: populated_template_data)
  from h have a: "amount_ok d ''100''" and n: "amount d ''100'' = r"
    by (auto intro: amount_of_value)
  have all: "arithmetic_ok d"
    using h a by (simp add: arithmetic_ok_def amount_codes_def)
  show "\<exists>vd. validate_response x = Inr vd
          \<and> ''CET1 is negative: '' @ comma_grouped r \<in> set (errors vd)
          \<and> \<not> is_valid vd"
    using h
    by (simp add: validate_ok [OF d ok all] make_verdict_def arithmetic_errors_def
          negative_text_def n)
next
  show "validate_response (template negative_data) =
       Inr \<lparr>errors = [''CET1 is negative: -10''], warnings = [], is_valid = False\<rparr>"
    by (simp add: validate_response_def cet1_calculation_def negative_data_def eval_defs)
next
  show "validate_response (template negative_mismatch_data) =
       Inr \<lparr>errors = [''CET1 calculation mismatch: Calculated 5 vs Reported -10'',
                      ''CET1 is negative: -10''],
            warnings = [], is_valid = False\<rparr>"
    by (simp add: validate_response_def cet1_calculation_def negative_mismatch_data_def eval_defs)
qed

theorem negative_total_reported_witness:
  "populated_template (template negative_mismatch_data)
   \<and> data_of (template negative_mismatch_data) = Some negative_mismatch_data
   \<and> field_value negative_mismatch_data ''100'' = Some (PStr ''-10'')
   \<and> truthy (PStr ''-10'') \<and> py_int (PStr ''-10'') = Inr (- 10) \<and> (- 10 :: int) < 0
   \<and> list_all (amount_ok negative_mismatch_data) [''010'', ''020'', ''030'', ''040'', ''070'']
   \<and> \<bar>calculated negative_mismatch_data\<bar> < 10 ^ max_str_digits
   \<and> (\<exists>vd. validate_response (template negative_mismatch_data) = Inr vd
          \<and> ''CET1 is negative: -10'' \<in> set (errors vd)
          \<and> \<not> is_valid vd)"
proof -
  have h: "populated_template (template negative_mismatch_data)
   \<and> data_of (template negative_mismatch_data) = Some negative_mismatch_data
   \<and> field_value negative_mismatch_data ''100'' = Some (PStr ''-10'')
   \<and> truthy (PStr ''-10'') \<and> py_int (PStr ''-10'') = Inr (- 10) \<and> (- 10 :: int) < 0
   \<and> list_all (amount_ok negative_mismatch_data) [''010'', ''020'', ''030'', ''040'', ''070'']
   \<and> \<bar>calculated negative_mismatch_data\<bar> < 10 ^ max_str_digits"
    by (simp add: negative_mismatch_data_def eval_defs)
  have f: "''CET1 is negative: '' @ comma_grouped (- 10) = ''CET1 is negative: -10''"
    by (simp add: eval_defs)
  from negative_total_reported
    [of "template negative_mismatch_data" negative_mismatch_data "PStr ''-10''" "- 10"] h
  have "\<exists>vd. validate_response (template negative_mismatch_data) = Inr vd
          \<and> ''CET1 is negative: '' @ comma_grouped (- 10) \<in> set (errors vd)
          \<and> \<not> is_valid vd"
    by blast
  then have "\<exists>vd. validate_response (template negative_mismatch_data) = Inr vd
          \<and> ''CET1 is negative: -10'' \<in> set (errors vd)
          \<and> \<not> is_valid vd"
    unfolding f .
  with h show ?thesis by blast
qed

section \<open>The numeric-format warning\<close>

text \<open>
  Claim C8 against the code. The pattern of the specification (an optional minus sign
  and digits only) rejects the digit 5 followed by a newline. The code's test is
  \<open>re.match(r'^-?\d+$', ...)\<close>, whose \<open>$\<close> also matches before a final newline, so this
  non-empty value gets no warning \<open>Non-numeric value in field 010\<close>.
\<close>

theorem trailing_newline_not_warned:
  "field_value newline_data ''010'' = Some (PStr [CHR ''5'', CHR 0x0A])
   \<and> truthy (PStr [CHR ''5'', CHR 0x0A])
   \<and> \<not> numeric_syntax [CHR ''5'', CHR 0x0A]
   \<and> re_match_numeric [CHR ''5'', CHR 0x0A]
   \<and> validate_response (template newline_data) =
       Inr \<lparr>errors = [], warnings = [], is_valid = True\<rparr>"
  by (simp add: validate_response_def cet1_calculation_def newline_data_def eval_defs syntax_defs)

section \<open>The number 0 as a value\<close>

text \<open>
  Claim C9. Take a data mapping of fields and a required code \<open>c\<close>, and set the value of
  field \<open>c\<close> once to the number 0 and once to the string \<open>0\<close>. Both templates get a
  verdict. With the number, the warning \<open>Empty value for field: c\<close> is there exactly
  once; with the string it is not there, and this warning is the only difference
  between the two verdicts: the warnings are otherwise the same and the errors are the
  same. In both, the loop body of the numeric-format check adds nothing for the field,
  and the summing loop leaves its accumulator unchanged at the field.
\<close>

theorem number_zero_treated_as_empty:
  assumes ok: "list_all (\<lambda>kv. field_ok (snd kv)) d"
    and c: "c \<in> set required_fields"
    and f0: "f0 = PDict (AList.update ''value'' (PInt 0) attrs)"
    and fs: "fs = PDict (AList.update ''value'' (PStr ''0'') attrs)"
    and d0: "d0 = AList.update c f0 d"
    and ds: "ds = AList.update c fs d"
    and x0: "data_of x0 = Some d0"
    and xs: "data_of xs = Some ds"
  shows "\<exists>v0 vs. validate_response x0 = Inr v0 \<and> validate_response xs = Inr vs
     \<and> count_list (warnings v0) (''Empty value for field: '' @ c) = 1
     \<and> ''Empty value for field: '' @ c \<notin> set (warnings vs)
     \<and> warnings vs = remove1 (''Empty value for field: '' @ c) (warnings v0)
     \<and> errors vs = errors v0
     \<and> (\<forall>w. check_types [(c, f0)] w = Inr w)
     \<and> (\<forall>w. check_types [(c, fs)] w = Inr w)
     \<and> (\<forall>acc. sum_codes (PDict d0) [c] acc = Inr acc)
     \<and> (\<forall>acc. sum_codes (PDict ds) [c] acc = Inr acc)"
proof -
  define E where "E = (\<lambda>c. ''Empty value for field: '' @ c)"
  define C where "C = (\<lambda>m. ''Calculation error: '' @ m)"
  have fok0: "field_ok f0" and foks: "field_ok fs"
    by (simp_all add: f0 fs update_conv')
  have ok0: "list_all (\<lambda>kv. field_ok (snd kv)) d0"
    unfolding d0 by (rule list_all_update [OF ok fok0])
  have oks: "list_all (\<lambda>kv. field_ok (snd kv)) ds"
    unfolding ds by (rule list_all_update [OF ok foks])
  have m0: "map_of d0 = (map_of d)(c \<mapsto> f0)" and ms: "map_of ds = (map_of d)(c \<mapsto> fs)"
    by (simp_all add: d0 ds update_conv')
  have val0: "value_or f0 dflt = PInt 0" and vals: "value_or fs dflt = PStr ''0''" for dflt
    by (simp_all add: f0 fs value_or_update)
  have aok0: "amount_ok d0 c" and aoks: "amount_ok ds c"
    by (simp_all add: amount_ok_def m0 ms val0 vals int_str_zero)
  have am0: "amount d0 c = 0" and ams: "amount ds c = 0"
    by (simp_all add: amount_def m0 ms val0 vals int_str_zero)
  have aok: "amount_ok d0 k = amount_ok ds k" for k
    using aok0 aoks by (cases "k = c") (simp_all add: amount_ok_def m0 ms)
  have am: "amount d0 k = amount ds k" for k
    using am0 ams by (cases "k = c") (simp_all add: amount_def m0 ms)
  have nk: "map_of d0 k = map_of ds k" if "\<not> amount_ok d0 k" for k
    using that aok0 by (cases "k = c") (simp_all add: m0 ms)
  have sums: "sum_codes (PDict d0) cs acc = sum_codes (PDict ds) cs acc" for cs acc
    by (rule sum_codes_agree [OF ok0 oks aok am nk])
  have cet: "cet1_calculation x0 errs = cet1_calculation xs errs" for errs
    unfolding cet1_closed [OF x0 ok0] cet1_closed [OF xs oks] sums by (rule refl)
  have miss: "missing_errors d0 cs = missing_errors ds cs" for cs
    by (simp add: missing_errors_def m0 ms)
  have arith: "arithmetic_errors d0 = arithmetic_errors ds"
    by (simp add: arithmetic_errors_def calculated_def am)
  have tw0: "type_warning (c, f0) = []" and tws: "type_warning (c, fs) = []"
    by (simp_all add: type_warning_def val0 vals re_match_numeric_def is_digit_def)
  have tw: "type_warnings d0 = type_warnings ds"
    unfolding d0 ds by (rule type_warnings_update) (simp add: tw0 tws)
  have emp0: "is_empty_field d0 c" and emps: "\<not> is_empty_field ds c"
    by (simp_all add: is_empty_field_def m0 ms val0 vals)
  have emp: "is_empty_field ds k = is_empty_field d0 k" if "k \<noteq> c" for k
    using that by (simp add: is_empty_field_def m0 ms)
  have ew: "empty_warnings ds required_fields = remove1 (E c) (empty_warnings d0 required_fields)"
    unfolding empty_warnings_def E_def
    using remove1_filtered
      [where f = "\<lambda>c. ''Empty value for field: '' @ c" and c = c
         and Q = "is_empty_field ds" and P = "is_empty_field d0" and codes = required_fields]
      inj_empty_message distinct_required emp emps emp0
    by blast
  have cnt0: "count_list (empty_warnings d0 required_fields) (E c) = 1"
    unfolding E_def using count_empty [OF distinct_required, of d0 c] c emp0 by simp
  have cnts: "count_list (empty_warnings ds required_fields) (E c) = 0"
    unfolding E_def using count_empty [OF distinct_required, of ds c] emps by simp
  have in0: "E c \<in> set (empty_warnings d0 required_fields)"
    using cnt0 count_list_0_iff [of "empty_warnings d0 required_fields" "E c"] by simp
  have notins: "E c \<notin> set (empty_warnings ds required_fields)"
    using cnts count_list_0_iff [of "empty_warnings ds required_fields" "E c"] by blast
  have twc: "count_list (type_warnings d') (E c) = 0" for d'
    unfolding E_def by (rule count_notin) (rule empty_not_type)
  have twn: "E c \<notin> set (type_warnings d')" for d'
    unfolding E_def by (rule empty_not_type)
  have cc: "count_list [C m] (E c) = 0" and cn: "E c \<noteq> C m" for m
    unfolding E_def C_def by simp_all
  have ct0: "check_types [(c, f0)] w = Inr w" and cts: "check_types [(c, fs)] w = Inr w" for w
    using tw0 tws
    by (simp_all add: field_ok_get [OF fok0] field_ok_get [OF foks] type_warning_def Let_def
          split: if_splits)
  have sc0: "sum_codes (PDict d0) [c] acc = Inr acc" and scs: "sum_codes (PDict ds) [c] acc = Inr acc"
    for acc
    by (simp_all add: sum_codes_step [OF ok0] sum_codes_step [OF oks] aok0 aoks am0 ams
          del: sum_codes.simps(2))
  have main: "\<exists>v0 vs. validate_response x0 = Inr v0 \<and> validate_response xs = Inr vs
     \<and> count_list (warnings v0) (E c) = 1
     \<and> E c \<notin> set (warnings vs)
     \<and> warnings vs = remove1 (E c) (warnings v0)
     \<and> errors vs = errors v0"
  proof (cases "arithmetic_ok d0")
    case True
    have "amount_ok d0 = amount_ok ds" by (rule ext) (rule aok)
    with True have Trues: "arithmetic_ok ds"
      by (simp add: arithmetic_ok_def calculated_def am)
    show ?thesis
      using in0 notins
      by (simp add: validate_ok [OF x0 ok0 True] validate_ok [OF xs oks Trues] make_verdict_def
            miss arith tw ew cnt0 twc twn remove1_append)
  next
    case False
    from cet1_fail [OF x0 ok0 False] obtain m where
      r0: "cet1_calculation x0 (missing_errors d0 required_fields)
             = (missing_errors d0 required_fields, Some (ValueError m))"
      by blast
    then have rs: "cet1_calculation xs (missing_errors ds required_fields)
             = (missing_errors ds required_fields, Some (ValueError m))"
      by (simp add: cet miss)
    have v0: "validate_response x0 =
                Inr (make_verdict (missing_errors d0 required_fields)
                       (empty_warnings d0 required_fields @ type_warnings d0 @ [C m]))"
      unfolding C_def by (simp add: validate_prefix [OF x0 ok0] r0)
    have vs: "validate_response xs =
                Inr (make_verdict (missing_errors ds required_fields)
                       (empty_warnings ds required_fields @ type_warnings ds @ [C m]))"
      unfolding C_def by (simp add: validate_prefix [OF xs oks] rs)
    show ?thesis
      unfolding v0 vs
      using in0 notins cn
      by (simp add: make_verdict_def miss tw ew cnt0 twc twn cc remove1_append
            del: count_list.simps)
  qed
  from main ct0 cts sc0 scs show ?thesis
    unfolding E_def by simp
qed

theorem number_zero_treated_as_empty_witness:
  "list_all (\<lambda>kv. field_ok (snd kv)) zero_base_data
   \<and> ''020'' \<in> set required_fields
   \<and> data_of (template zero_number_data) = Some zero_number_data
   \<and> data_of (template zero_string_data) = Some zero_string_data
   \<and> field_value zero_number_data ''020'' = Some (PInt 0)
   \<and> field_value zero_string_data ''020'' = Some (PStr ''0'')
   \<and> (\<exists>v0 vs. validate_response (template zero_number_data) = Inr v0
        \<and> validate_response (template zero_string_data) = Inr vs
        \<and> count_list (warnings v0) ''Empty value for field: 020'' = 1
        \<and> ''Empty value for field: 020'' \<notin> set (warnings vs)
        \<and> warnings vs = remove1 ''Empty value for field: 020'' (warnings v0)
        \<and> errors vs = errors v0)"
proof -
  have ok: "list_all (\<lambda>kv. field_ok (snd kv)) zero_base_data"
    by (simp add: zero_base_data_def text_field_def)
  have c: "''020'' \<in> set required_fields"
    by (simp add: required_fields_def)
  have x0: "data_of (template zero_number_data) = Some zero_number_data"
    and xs: "data_of (template zero_string_data) = Some zero_string_data"
    by (simp_all add: template_def)
  have f: "field_value zero_number_data ''020'' = Some (PInt 0)"
    "field_value zero_string_data ''020'' = Some (PStr ''0'')"
    by (simp_all add: zero_number_data_def zero_string_data_def zero_base_data_def
          zero_field_attrs_def text_field_def field_value_def)
  have e: "''Empty value for field: '' @ ''020'' = ''Empty value for field: 020''"
    by simp
  from number_zero_treated_as_empty
    [OF ok c refl refl zero_number_data_def zero_string_data_def x0 xs]
  have "\<exists>v0 vs. validate_response (template zero_number_data) = Inr v0
        \<and> validate_response (template zero_string_data) = Inr vs
        \<and> count_list (warnings v0) (''Empty value for field: '' @ ''020'') = 1
        \<and> ''Empty value for field: '' @ ''020'' \<notin> set (warnings vs)
        \<and> warnings vs = remove1 (''Empty value for field: '' @ ''020'') (warnings v0)
        \<and> errors vs = errors v0"
    by blast
  then have "\<exists>v0 vs. validate_response (template zero_number_data) = Inr v0
        \<and> validate_response (template zero_string_data) = Inr vs
        \<and> count_list (warnings v0) ''Empty value for field: 020'' = 1
        \<and> ''Empty value for field: 020'' \<notin> set (warnings vs)
        \<and> warnings vs = remove1 ''Empty value for field: 020'' (warnings v0)
        \<and> errors vs = errors v0"
    unfolding e .
  with ok c x0 xs f show ?thesis by blast
qed

section \<open>The two copies agree\<close>

text \<open>
  Claim C10. The method of \<open>COREPEngine\<close> (corep_engine.py) and the method of
  \<open>COREPAssistant\<close> (main.py) give the same result on every input: the same
  exception, or the same errors, warnings and \<open>is_valid\<close>.
\<close>

theorem validators_agree: "assistant_validate_response x = validate_response x"
  unfolding assistant_validate_response_def validate_response_def
    assistant_check_required_eq assistant_check_types_eq assistant_cet1_calculation_eq
    assistant_required_fields_def required_fields_def
    assistant_make_verdict_def [abs_def] make_verdict_def [abs_def]
  by (rule refl)

theorem validators_agree_witness:
  "assistant_validate_response (template non_numeric_data) =
     Inr \<lparr>errors = [],
          warnings = [''Non-numeric value in field 010: abc'',
                      ''Calculation error: invalid literal for int() with base 10: ''
                        @ [CHR 0x27] @ ''abc'' @ [CHR 0x27]],
          is_valid = True\<rparr>"
  unfolding validators_agree
  by (simp add: validate_response_def cet1_calculation_def non_numeric_data_def eval_defs)

end
